theory Spec2Isabelle
  imports Main "HOL-Library.Word"
begin

section \<open>Bogus NXDOMAIN detection (proxy/bogusnxdomain.go)\<close>

text \<open>
  The part of \<^verbatim>\<open>dns.Msg\<close> and \<^verbatim>\<open>dns.Question\<close> (package miekg/dns) that
  \<^verbatim>\<open>isBogusNXDomain\<close> reads: the question section and the answer section.  A resource
  record is kept abstract (\<open>'rr\<close>); \<^verbatim>\<open>Qtype\<close> is a \<^verbatim>\<open>uint16\<close>.
\<close>

record question =
  Name :: string
  Qtype :: "16 word"
  Qclass :: "16 word"

record 'rr msg =
  Question :: "question list"
  Answer :: "'rr list"
  Ns :: "'rr list"
  Extra :: "'rr list"

definition TypeA :: "16 word" where
  "TypeA = 1"

definition TypeAAAA :: "16 word" where
  "TypeAAAA = 28"

text \<open>
  The functions of other packages that the two functions call.  Their code is not part
  of the files under verification, so they are parameters of the model:
  \<^verbatim>\<open>proxyutil.IPFromRR\<close> (the address carried by a record, possibly nil or empty),
  \<^verbatim>\<open>netutil.ValidateIP\<close> (\<open>True\<close> stands for a nil error) and the method
  \<^verbatim>\<open>(*net.IPNet).Contains\<close>.
\<close>

record ('rr, 'ip, 'net) iplib =
  IPFromRR :: "'rr \<Rightarrow> 'ip"
  ValidateIP_ok :: "'ip \<Rightarrow> bool"
  Contains :: "'net \<Rightarrow> 'ip \<Rightarrow> bool"

text \<open>The field of \<^verbatim>\<open>Proxy\<close> (through its embedded \<^verbatim>\<open>Config\<close>) that is read.\<close>

record 'net proxy =
  BogusNXDomain :: "'net list"

text \<open>The loop \<^verbatim>\<open>for _, n := range nets\<close> of \<^verbatim>\<open>containsIP\<close>.\<close>

fun containsIP_loop :: "('rr, 'ip, 'net) iplib \<Rightarrow> 'net list \<Rightarrow> 'ip \<Rightarrow> bool" where
  "containsIP_loop L [] ip = False"
| "containsIP_loop L (n # nets) ip =
     (if Contains L n ip then True else containsIP_loop L nets ip)"

definition containsIP :: "('rr, 'ip, 'net) iplib \<Rightarrow> 'net list \<Rightarrow> 'ip \<Rightarrow> bool" where
  "containsIP L nets ip =
     (if \<not> ValidateIP_ok L ip then False else containsIP_loop L nets ip)"

text \<open>The loop \<^verbatim>\<open>for _, rr := range m.Answer\<close> of \<^verbatim>\<open>isBogusNXDomain\<close>.\<close>

fun isBogusNXDomain_loop ::
  "('rr, 'ip, 'net) iplib \<Rightarrow> 'net list \<Rightarrow> 'rr list \<Rightarrow> bool" where
  "isBogusNXDomain_loop L nets [] = False"
| "isBogusNXDomain_loop L nets (rr # rrs) =
     (let ip = IPFromRR L rr
      in if containsIP L nets ip then True else isBogusNXDomain_loop L nets rrs)"

text \<open>
  \<^verbatim>\<open>m\<close> is a pointer: \<open>None\<close> is nil.  The first test short-circuits from left to
  right, so \<^verbatim>\<open>m.Question\<close> is only read when \<^verbatim>\<open>m\<close> is not nil, and
  \<^verbatim>\<open>m.Question[0]\<close> only when the question section is not empty: the branch of the
  model for an index out of range is never taken.
\<close>

definition isBogusNXDomain ::
  "('rr, 'ip, 'net) iplib \<Rightarrow> 'net proxy \<Rightarrow> 'rr msg option \<Rightarrow> bool" where
  "isBogusNXDomain L p mp =
     (case mp of
        None \<Rightarrow> False
      | Some m \<Rightarrow>
          (if length (BogusNXDomain p) = 0 \<or> length (Question m) = 0 then False
           else (case Question m of
                   [] \<Rightarrow> False
                 | q # _ \<Rightarrow>
                     (let qt = Qtype q
                      in if qt \<noteq> TypeA \<and> qt \<noteq> TypeAAAA then False
                         else isBogusNXDomain_loop L (BogusNXDomain p) (Answer m)))))"

section \<open>Errors (upstream/upstream.go and the libraries it calls)\<close>

text \<open>
  Go errors as values.  Each \<^verbatim>\<open>fmt.Errorf\<close> of the source is a constructor holding
  the formatted arguments; a wrapped error (\<^verbatim>\<open>%w\<close>) is an argument of type \<open>err\<close>.
  \<open>ErrExternal\<close> is an error made by code outside these files (\<^verbatim>\<open>url.Parse\<close>,
  the stamp decoder, a transport constructor, a resolver, a lookup).
  \<^item> \<open>AddrError why addr\<close>: \<^verbatim>\<open>*net.AddrError\<close> of \<^verbatim>\<open>net.SplitHostPort\<close>;
  \<^item> \<open>NumError func num cause\<close>: \<^verbatim>\<open>*strconv.NumError\<close>, whose cause is \<open>ErrSyntax\<close> or
    \<open>ErrRange\<close>;
  \<^item> \<open>ParsingPort\<close>: \<^verbatim>\<open>"parsing port: %w"\<close> of \<^verbatim>\<open>netutil.SplitHostPort\<close>;
  \<^item> \<open>FailedToParse\<close>: \<^verbatim>\<open>"failed to parse %s: %w"\<close> (\<^verbatim>\<open>AddressToUpstream\<close>, \<^verbatim>\<open>parseStamp\<close>);
  \<^item> \<open>InvalidAddress\<close>: \<^verbatim>\<open>"invalid address %s: %w"\<close> (\<^verbatim>\<open>AddressToUpstream\<close>);
  \<^item> \<open>UnsupportedURLScheme\<close>: \<^verbatim>\<open>"unsupported url scheme: %s"\<close>;
  \<^item> \<open>InvalidServerStampAddress\<close>: \<^verbatim>\<open>"invalid server stamp address %s"\<close>;
  \<^item> \<open>UnsupportedStampProtocol\<close>: \<^verbatim>\<open>"unsupported stamp protocol %s"\<close>;
  \<^item> \<open>InvalidAddressOfHost\<close>: \<^verbatim>\<open>"invalid address: %s: %w"\<close> (\<^verbatim>\<open>newDialerInitializer\<close>);
  \<^item> \<open>CreatingDialHandler\<close>: \<^verbatim>\<open>"creating dial handler: %w"\<close>;
  \<^item> \<open>PreparingBootstrapResolver\<close>: \<^verbatim>\<open>"preparing bootstrap resolver at index %d: %w"\<close>;
  \<^item> \<open>Joined\<close>: the error that \<^verbatim>\<open>errors.Join\<close> makes.

  A stamp protocol is one of the five that \<^verbatim>\<open>parseStamp\<close> knows, or any other value of
  the \<^verbatim>\<open>uint8\<close>.
\<close>

datatype addr_why =
    missingPort
  | tooManyColons
  | missingClosingBracket
  | unexpectedOpeningBracket
  | unexpectedClosingBracket

datatype StampProtoType =
    StampProtoTypePlain
  | StampProtoTypeDNSCrypt
  | StampProtoTypeDoH
  | StampProtoTypeTLS
  | StampProtoTypeDoQ
  | StampProtoTypeOther "8 word"

datatype err =
    ErrExternal string
  | AddrError addr_why string
  | ErrSyntax
  | ErrRange
  | NumError string string err
  | ParsingPort err
  | FailedToParse string err
  | InvalidAddress string err
  | UnsupportedURLScheme string
  | InvalidServerStampAddress string
  | UnsupportedStampProtocol StampProtoType
  | InvalidAddressOfHost string err
  | CreatingDialHandler err
  | PreparingBootstrapResolver nat err
  | Joined "err list"

text \<open>
  \<^verbatim>\<open>errors.Join\<close>: nil errors are discarded; the result is nil when none is left,
  and otherwise one error holding all the others in their order.
\<close>

definition errors_Join :: "err option list \<Rightarrow> err option" where
  "errors_Join errs =
     (let es = concat (map (\<lambda>e. case e of None \<Rightarrow> [] | Some x \<Rightarrow> [x]) errs)
      in if es = [] then None else Some (Joined es))"

section \<open>Strings, host and port (Go standard library, golibs/netutil)\<close>

fun strings_Contains :: "string \<Rightarrow> string \<Rightarrow> bool" where
  "strings_Contains [] substr = (substr = [])"
| "strings_Contains (c # s) substr =
     (take (length substr) (c # s) = substr \<or> strings_Contains s substr)"

text \<open>Index of the first and of the last occurrence of a byte; \<open>None\<close> is Go's \<open>-1\<close>.\<close>

definition IndexByte :: "string \<Rightarrow> char \<Rightarrow> nat option" where
  "IndexByte s c =
     (if c \<in> set s then Some (length (takeWhile (\<lambda>x. x \<noteq> c) s)) else None)"

definition LastIndexByte :: "string \<Rightarrow> char \<Rightarrow> nat option" where
  "LastIndexByte s c =
     (if c \<in> set s then Some (length s - 1 - length (takeWhile (\<lambda>x. x \<noteq> c) (rev s)))
      else None)"

text \<open>
  The last part of \<^verbatim>\<open>net.SplitHostPort\<close>: no opening bracket from position \<open>j\<close> on,
  no closing bracket from position \<open>k\<close> on, and the port is what follows the colon at
  position \<open>i\<close>.
\<close>

definition SplitHostPort_finish ::
  "string \<Rightarrow> nat \<Rightarrow> string \<Rightarrow> nat \<Rightarrow> nat \<Rightarrow> err + (string \<times> string)" where
  "SplitHostPort_finish hostport i host j k =
     (if IndexByte (drop j hostport) CHR ''['' \<noteq> None
        then Inl (AddrError unexpectedOpeningBracket hostport)
      else if IndexByte (drop k hostport) CHR '']'' \<noteq> None
        then Inl (AddrError unexpectedClosingBracket hostport)
      else Inr (host, drop (i + 1) hostport))"

text \<open>
  \<^verbatim>\<open>net.SplitHostPort\<close> of the Go standard library.  The port starts after the last
  colon; a host in brackets must end just before that colon; a host without brackets
  must not hold a colon.
\<close>

definition net_SplitHostPort :: "string \<Rightarrow> err + (string \<times> string)" where
  "net_SplitHostPort hostport =
     (case LastIndexByte hostport CHR '':'' of
        None \<Rightarrow> Inl (AddrError missingPort hostport)
      | Some i \<Rightarrow>
          (if take 1 hostport = ''[''
           then (case IndexByte hostport CHR '']'' of
                   None \<Rightarrow> Inl (AddrError missingClosingBracket hostport)
                 | Some end' \<Rightarrow>
                     (if end' + 1 = length hostport
                        then Inl (AddrError missingPort hostport)
                      else if end' + 1 = i
                        then SplitHostPort_finish hostport i
                               (take (end' - 1) (drop 1 hostport)) 1 (end' + 1)
                      else if take 1 (drop (end' + 1) hostport) = '':''
                        then Inl (AddrError tooManyColons hostport)
                      else Inl (AddrError missingPort hostport)))
           else (let host = take i hostport
                 in if IndexByte host CHR '':'' \<noteq> None
                      then Inl (AddrError tooManyColons hostport)
                    else SplitHostPort_finish hostport i host 0 0)))"

text \<open>
  \<^verbatim>\<open>strconv.ParseUint(s, 10, 16)\<close>: the digits are read from left to right; a byte
  that is not a decimal digit is a syntax error, a value above \<open>65535\<close> a range error,
  and the empty string a syntax error.  The accumulator never exceeds \<open>65535\<close>, so the
  64-bit cut-off of the library is never reached.
\<close>

definition is_digit :: "char \<Rightarrow> bool" where
  "is_digit c = (of_char CHR ''0'' \<le> (of_char c :: nat) \<and> (of_char c :: nat) \<le> of_char CHR ''9'')"

definition digit_val :: "char \<Rightarrow> nat" where
  "digit_val c = of_char c - of_char CHR ''0''"

fun ParseUint_loop :: "string \<Rightarrow> nat \<Rightarrow> string \<Rightarrow> err + nat" where
  "ParseUint_loop s0 n [] = Inr n"
| "ParseUint_loop s0 n (c # s) =
     (if \<not> is_digit c then Inl (NumError ''ParseUint'' s0 ErrSyntax)
      else (let n1 = n * 10 + digit_val c
            in if n1 > 65535 then Inl (NumError ''ParseUint'' s0 ErrRange)
               else ParseUint_loop s0 n1 s))"

definition strconv_ParseUint_10_16 :: "string \<Rightarrow> err + nat" where
  "strconv_ParseUint_10_16 s =
     (if s = [] then Inl (NumError ''ParseUint'' s ErrSyntax) else ParseUint_loop s 0 s)"

text \<open>
  \<^verbatim>\<open>netutil.SplitHostPort\<close> (golibs): \<^verbatim>\<open>net.SplitHostPort\<close>, then the port as a
  \<^verbatim>\<open>uint16\<close>.
\<close>

definition netutil_SplitHostPort :: "string \<Rightarrow> err + (string \<times> 16 word)" where
  "netutil_SplitHostPort hostport =
     (case net_SplitHostPort hostport of
        Inl err \<Rightarrow> Inl err
      | Inr (host, portStr) \<Rightarrow>
          (case strconv_ParseUint_10_16 portStr of
             Inl err \<Rightarrow> Inl (ParsingPort err)
           | Inr portUint \<Rightarrow> Inr (host, word_of_nat portUint)))"

section \<open>Data of package upstream\<close>

text \<open>
  \<^verbatim>\<open>url.URL\<close>: the three fields this package reads and writes; \<open>Rest\<close> stands for
  all its other fields, empty in a URL built by a composite literal.
\<close>

record url =
  Scheme :: string
  Host :: string
  Path :: string
  Rest :: string

type_synonym IP = "8 word list"

text \<open>
  \<^verbatim>\<open>Options\<close>.  A callback or a pointer field is an opaque handle, \<open>None\<close> when nil;
  a nil slice is the empty list; \<^verbatim>\<open>time.Duration\<close> is an \<^verbatim>\<open>int64\<close>.
\<close>

record Options =
  VerifyServerCertificate :: "nat option"
  VerifyConnection :: "nat option"
  VerifyDNSCryptCertificate :: "nat option"
  QUICTracer :: "nat option"
  RootCAs :: "nat option"
  CipherSuites :: "16 word list"
  Bootstrap :: "string list"
  ServerIPAddrs :: "IP list"
  HTTPVersions :: "string list"
  Timeout :: "64 word"
  InsecureSkipVerify :: bool
  PreferIPv6 :: bool

text \<open>The zero value \<^verbatim>\<open>Options{}\<close>.\<close>

definition zero_Options :: Options where
  "zero_Options =
     \<lparr>VerifyServerCertificate = None, VerifyConnection = None,
      VerifyDNSCryptCertificate = None, QUICTracer = None, RootCAs = None,
      CipherSuites = [], Bootstrap = [], ServerIPAddrs = [], HTTPVersions = [],
      Timeout = 0, InsecureSkipVerify = False, PreferIPv6 = False\<rparr>"

text \<open>The fields of \<^verbatim>\<open>dnsstamps.ServerStamp\<close> that \<^verbatim>\<open>parseStamp\<close> reads.\<close>

record ServerStamp =
  ServerAddrStr :: string
  ProviderName :: string
  StampPath :: string
  Proto :: StampProtoType

text \<open>
  A \<^verbatim>\<open>Resolver\<close> of a bootstrap chain: the system default \<^verbatim>\<open>&net.Resolver{}\<close>, or
  an \<^verbatim>\<open>upstreamResolver\<close> (type \<open>'r\<close>) made by \<^verbatim>\<open>NewUpstreamResolver\<close>.
\<close>

datatype 'r Resolver = SystemResolver | UpstreamResolver 'r

datatype constructor = NewPlain | NewDoQ | NewDoT | NewDoH | NewDNSCrypt

text \<open>
  Every call that leaves these files for code that may perform I/O is recorded, with
  its arguments and its answer, in a trace: a transport constructor, the construction of
  a bootstrap resolver, the closing of one, and a bootstrap lookup
  (\<^verbatim>\<open>bootstrap.ResolveDialContext\<close>, with the number of the invocation that made it).
\<close>

datatype ('u, 'r, 'h) event =
    EvConstruct constructor url "Options option" "err + 'u"
  | EvNewUpstreamResolver string Options "err + 'r"
  | EvClose 'r "err option"
  | EvResolveDialContext nat url "'r Resolver list" "err + 'h"

text \<open>
  The code outside these files, as parameters.  The pure ones: \<^verbatim>\<open>url.Parse\<close>,
  \<^verbatim>\<open>(*url.URL).String\<close>, \<^verbatim>\<open>dnsstamps.NewServerStampFromString\<close>, \<^verbatim>\<open>net.ParseIP\<close>
  (\<open>None\<close> is nil), \<^verbatim>\<open>net.IP.String\<close>, \<^verbatim>\<open>netip.ParseAddr\<close> (\<open>True\<close> when it
  returns no error), \<^verbatim>\<open>netutil.JoinHostPort\<close> and \<^verbatim>\<open>bootstrap.NewDialContext\<close>.
  The others answer from the outside world, so their answer may depend on all that
  happened before: they take the trace.  A transport constructor takes the pointer to the
  options, \<open>None\<close> when nil; it is taken not to write through it
  (\<^verbatim>\<open>AddressToUpstream\<close> asks that the options are not modified once they are passed).
  \<^verbatim>\<open>NewUpstreamResolver\<close> returns an \<^verbatim>\<open>upstreamResolver\<close>, so that the type
  assertion \<^verbatim>\<open>r.(upstreamResolver)\<close> of \<^verbatim>\<open>newResolvers\<close> holds.
\<close>

record ('u, 'r, 'h) extern =
  url_Parse :: "string \<Rightarrow> err + url"
  url_String :: "url \<Rightarrow> string"
  NewServerStampFromString :: "string \<Rightarrow> err + ServerStamp"
  net_ParseIP :: "string \<Rightarrow> IP option"
  IP_String :: "IP \<Rightarrow> string"
  netip_ParseAddr_ok :: "string \<Rightarrow> bool"
  JoinHostPort :: "string \<Rightarrow> 16 word \<Rightarrow> string"
  NewDialContext :: "64 word \<Rightarrow> string list \<Rightarrow> 'h"
  newPlain :: "('u, 'r, 'h) event list \<Rightarrow> url \<Rightarrow> Options option \<Rightarrow> err + 'u"
  newDoQ :: "('u, 'r, 'h) event list \<Rightarrow> url \<Rightarrow> Options option \<Rightarrow> err + 'u"
  newDoT :: "('u, 'r, 'h) event list \<Rightarrow> url \<Rightarrow> Options option \<Rightarrow> err + 'u"
  newDoH :: "('u, 'r, 'h) event list \<Rightarrow> url \<Rightarrow> Options option \<Rightarrow> err + 'u"
  newDNSCrypt :: "('u, 'r, 'h) event list \<Rightarrow> url \<Rightarrow> Options option \<Rightarrow> 'u"
  NewUpstreamResolver :: "('u, 'r, 'h) event list \<Rightarrow> string \<Rightarrow> Options \<Rightarrow> err + 'r"
  Close :: "('u, 'r, 'h) event list \<Rightarrow> 'r \<Rightarrow> err option"
  ResolveDialContext ::
    "('u, 'r, 'h) event list \<Rightarrow> url \<Rightarrow> 64 word \<Rightarrow> 'r Resolver list \<Rightarrow> bool \<Rightarrow> err + 'h"

section \<open>Address parsing and dispatch (upstream/upstream.go)\<close>

text \<open>
  What a call that returns \<^verbatim>\<open>(u Upstream, err error)\<close> ends with: the upstream, the
  error, or the run-time panic of a nil pointer dereference.
\<close>

datatype 'u outcome = Upstream 'u | Failure err | PanicNilDereference

definition returned :: "err + 'u \<Rightarrow> 'u outcome" where
  "returned r = (case r of Inl e \<Rightarrow> Failure e | Inr u \<Rightarrow> Upstream u)"

text \<open>
  The calls of the transport constructors.  Each function below returns, with its
  outcome, the \<^verbatim>\<open>Options\<close> its pointer argument points to after the call (\<open>None\<close> for
  a nil pointer) and the trace.
\<close>

definition call_constructor ::
  "('u, 'r, 'h) extern \<Rightarrow> constructor \<Rightarrow> url \<Rightarrow> Options option \<Rightarrow> ('u, 'r, 'h) event list \<Rightarrow>
     'u outcome \<times> Options option \<times> ('u, 'r, 'h) event list" where
  "call_constructor X c uu opts tr =
     (let r = (case c of
                 NewPlain \<Rightarrow> newPlain X tr uu opts
               | NewDoQ \<Rightarrow> newDoQ X tr uu opts
               | NewDoT \<Rightarrow> newDoT X tr uu opts
               | NewDoH \<Rightarrow> newDoH X tr uu opts
               | NewDNSCrypt \<Rightarrow> Inr (newDNSCrypt X tr uu opts))
      in (returned r, opts, tr @ [EvConstruct c uu opts r]))"

text \<open>
  \<^verbatim>\<open>parseStamp\<close>.  The assignment \<^verbatim>\<open>opts.ServerIPAddrs = []net.IP{ip}\<close> writes through
  the pointer: it panics on nil, and otherwise the options hold the one address from
  then on, whatever the list was.
\<close>

definition parseStamp ::
  "('u, 'r, 'h) extern \<Rightarrow> url \<Rightarrow> Options option \<Rightarrow> ('u, 'r, 'h) event list \<Rightarrow>
     'u outcome \<times> Options option \<times> ('u, 'r, 'h) event list" where
  "parseStamp X upsURL opts tr =
     (case NewServerStampFromString X (url_String X upsURL) of
        Inl err \<Rightarrow> (Failure (FailedToParse (url_String X upsURL) err), opts, tr)
      | Inr stamp \<Rightarrow>
          (let written =
                 (if ServerAddrStr stamp \<noteq> ''''
                  then (let host = (case netutil_SplitHostPort (ServerAddrStr stamp) of
                                      Inl sErr \<Rightarrow> ServerAddrStr stamp
                                    | Inr (h, _) \<Rightarrow> h)
                        in case net_ParseIP X host of
                             None \<Rightarrow> Inl (Failure (InvalidServerStampAddress (ServerAddrStr stamp)))
                           | Some ip \<Rightarrow>
                               (case opts of
                                  None \<Rightarrow> Inl PanicNilDereference
                                | Some ov \<Rightarrow> Inr (Some (ov\<lparr>ServerIPAddrs := [ip]\<rparr>))))
                  else Inr opts)
           in case written of
                Inl stop \<Rightarrow> (stop, opts, tr)
              | Inr opts' \<Rightarrow>
                  (case Proto stamp of
                     StampProtoTypePlain \<Rightarrow>
                       call_constructor X NewPlain
                         \<lparr>Scheme = ''udp'', Host = ServerAddrStr stamp, Path = '''', Rest = ''''\<rparr>
                         opts' tr
                   | StampProtoTypeDNSCrypt \<Rightarrow>
                       call_constructor X NewDNSCrypt upsURL opts' tr
                   | StampProtoTypeDoH \<Rightarrow>
                       call_constructor X NewDoH
                         \<lparr>Scheme = ''https'', Host = ProviderName stamp, Path = StampPath stamp,
                          Rest = ''''\<rparr>
                         opts' tr
                   | StampProtoTypeDoQ \<Rightarrow>
                       call_constructor X NewDoQ
                         \<lparr>Scheme = ''quic'', Host = ProviderName stamp, Path = StampPath stamp,
                          Rest = ''''\<rparr>
                         opts' tr
                   | StampProtoTypeTLS \<Rightarrow>
                       call_constructor X NewDoT
                         \<lparr>Scheme = ''tls'', Host = ProviderName stamp, Path = '''', Rest = ''''\<rparr>
                         opts' tr
                   | StampProtoTypeOther b \<Rightarrow>
                       (Failure (UnsupportedStampProtocol (Proto stamp)), opts', tr))))"

definition urlToUpstream ::
  "('u, 'r, 'h) extern \<Rightarrow> url \<Rightarrow> Options option \<Rightarrow> ('u, 'r, 'h) event list \<Rightarrow>
     'u outcome \<times> Options option \<times> ('u, 'r, 'h) event list" where
  "urlToUpstream X uu opts tr =
     (let sch = Scheme uu
      in if sch = ''sdns'' then parseStamp X uu opts tr
         else if sch = ''udp'' \<or> sch = ''tcp'' then call_constructor X NewPlain uu opts tr
         else if sch = ''quic'' then call_constructor X NewDoQ uu opts tr
         else if sch = ''tls'' then call_constructor X NewDoT uu opts tr
         else if sch = ''h3'' \<or> sch = ''https'' then call_constructor X NewDoH uu opts tr
         else (Failure (UnsupportedURLScheme sch), opts, tr))"

text \<open>
  \<^verbatim>\<open>AddressToUpstream\<close>.  A nil \<^verbatim>\<open>opts\<close> is replaced by a pointer to a fresh zero
  value before anything else.  A bare address is checked only when
  \<^verbatim>\<open>net.SplitHostPort\<close> splits it; when it does not, the address goes on as it is.
\<close>

definition AddressToUpstream ::
  "('u, 'r, 'h) extern \<Rightarrow> string \<Rightarrow> Options option \<Rightarrow> ('u, 'r, 'h) event list \<Rightarrow>
     'u outcome \<times> Options option \<times> ('u, 'r, 'h) event list" where
  "AddressToUpstream X addr opts0 tr =
     (let opts = (case opts0 of None \<Rightarrow> Some zero_Options | Some ov \<Rightarrow> Some ov)
      in if strings_Contains addr ''://''
         then (case url_Parse X addr of
                 Inl err \<Rightarrow> (Failure (FailedToParse addr err), opts, tr)
               | Inr uu \<Rightarrow> urlToUpstream X uu opts tr)
         else (case net_SplitHostPort addr of
                 Inl splitErr \<Rightarrow>
                   urlToUpstream X \<lparr>Scheme = ''udp'', Host = addr, Path = '''', Rest = ''''\<rparr> opts tr
               | Inr (host, port) \<Rightarrow>
                   (case strconv_ParseUint_10_16 port of
                      Inl err \<Rightarrow> (Failure (InvalidAddress addr err), opts, tr)
                    | Inr v \<Rightarrow>
                        urlToUpstream X \<lparr>Scheme = ''udp'', Host = addr, Path = '''', Rest = ''''\<rparr>
                          opts tr)))"

section \<open>The bootstrap resolver chain (newResolvers)\<close>

text \<open>
  A \<^verbatim>\<open>closeFunc\<close> is \<^verbatim>\<open>nopClose\<close> or the closure that \<^verbatim>\<open>newResolvers\<close> returns,
  which holds the slice \<^verbatim>\<open>closeBoots\<close> of the \<^verbatim>\<open>Close\<close> methods of the resolvers
  built.
\<close>

datatype 'r closeFunc = nopClose | closeBootsFunc "'r list"

text \<open>The loop \<^verbatim>\<open>for _, cb := range closeBoots\<close>: every error, nil or not, is appended.\<close>

fun closeBoots_loop ::
  "('u, 'r, 'h) extern \<Rightarrow> 'r list \<Rightarrow> err option list \<Rightarrow> ('u, 'r, 'h) event list \<Rightarrow>
     err option list \<times> ('u, 'r, 'h) event list" where
  "closeBoots_loop X [] errs tr = (errs, tr)"
| "closeBoots_loop X (cb # cbs) errs tr =
     (let e = Close X tr cb
      in closeBoots_loop X cbs (errs @ [e]) (tr @ [EvClose cb e]))"

fun call_closeFunc ::
  "('u, 'r, 'h) extern \<Rightarrow> 'r closeFunc \<Rightarrow> ('u, 'r, 'h) event list \<Rightarrow>
     err option \<times> ('u, 'r, 'h) event list" where
  "call_closeFunc X nopClose tr = (None, tr)"
| "call_closeFunc X (closeBootsFunc closeBoots) tr =
     (let (errs, tr') = closeBoots_loop X closeBoots [] tr
      in (errors_Join errs, tr'))"

text \<open>
  The loop \<^verbatim>\<open>for i, boot := range bootstraps\<close>, with the index, the two slices being
  built and the trace.  A failure sets \<^verbatim>\<open>resolvers = nil\<close> and leaves the loop; the
  \<^verbatim>\<open>Close\<close> methods collected so far stay in \<^verbatim>\<open>closeBoots\<close>.
\<close>

fun newResolvers_loop ::
  "('u, 'r, 'h) extern \<Rightarrow> Options \<Rightarrow> nat \<Rightarrow> string list \<Rightarrow> 'r Resolver list \<Rightarrow> 'r list \<Rightarrow>
     ('u, 'r, 'h) event list \<Rightarrow>
     'r Resolver list \<times> 'r list \<times> err option \<times> ('u, 'r, 'h) event list" where
  "newResolvers_loop X opts i [] resolvers closeBoots tr = (resolvers, closeBoots, None, tr)"
| "newResolvers_loop X opts i (boot # bootstraps) resolvers closeBoots tr =
     (if boot = ''''
      then newResolvers_loop X opts (Suc i) bootstraps (resolvers @ [SystemResolver]) closeBoots tr
      else (case NewUpstreamResolver X tr boot opts of
              Inl rErr \<Rightarrow>
                ([], closeBoots, Some (PreparingBootstrapResolver i rErr),
                 tr @ [EvNewUpstreamResolver boot opts (Inl rErr)])
            | Inr r \<Rightarrow>
                newResolvers_loop X opts (Suc i) bootstraps (resolvers @ [UpstreamResolver r])
                  (closeBoots @ [r]) (tr @ [EvNewUpstreamResolver boot opts (Inr r)])))"

definition newResolvers ::
  "('u, 'r, 'h) extern \<Rightarrow> Options \<Rightarrow> ('u, 'r, 'h) event list \<Rightarrow>
     'r Resolver list \<times> 'r closeFunc \<times> err option \<times> ('u, 'r, 'h) event list" where
  "newResolvers X opts tr =
     (let bootstraps = Bootstrap opts;
          l = length bootstraps
      in if l = 0 then ([SystemResolver], nopClose, None, tr)
         else (let (resolvers, closeBoots, err, tr') =
                     newResolvers_loop X opts 0 bootstraps [] [] tr
               in (resolvers, closeBootsFunc closeBoots, err, tr')))"

section \<open>The dialer initializer (newDialerInitializer)\<close>

text \<open>
  A \<^verbatim>\<open>DialerInitializer\<close> is one of the two closures of \<^verbatim>\<open>newDialerInitializer\<close>: the
  one that returns a handler made beforehand, or the one that resolves on demand, which
  holds \<^verbatim>\<open>u\<close>, \<^verbatim>\<open>opts\<close>, \<^verbatim>\<open>resolvers\<close> and the cell \<^verbatim>\<open>dialHandler\<close>.  The cell is
  the state the invocations share; it is nil (\<open>None\<close>) when the closure is made.
\<close>

datatype ('r, 'h) DialerInitializer =
    StaticInitializer 'h
  | LazyInitializer url Options "'r Resolver list"

definition newDialerInitializer ::
  "('u, 'r, 'h) extern \<Rightarrow> url \<Rightarrow> Options \<Rightarrow> ('u, 'r, 'h) event list \<Rightarrow>
     ('r, 'h) DialerInitializer option \<times> 'r closeFunc \<times> err option \<times> ('u, 'r, 'h) event list" where
  "newDialerInitializer X u opts tr =
     (case netutil_SplitHostPort (Host u) of
        Inl err \<Rightarrow> (None, nopClose, Some (InvalidAddressOfHost (Host u) err), tr)
      | Inr (host, port) \<Rightarrow>
          (if length (ServerIPAddrs opts) > 0
           then (let addrs = map (\<lambda>addr. JoinHostPort X (IP_String X addr) port) (ServerIPAddrs opts);
                     handler = NewDialContext X (Timeout opts) addrs
                 in (Some (StaticInitializer handler), nopClose, None, tr))
           else if netip_ParseAddr_ok X host
           then (let handler = NewDialContext X (Timeout opts) [Host u]
                 in (Some (StaticInitializer handler), nopClose, None, tr))
           else (let (resolvers, closeBoot, err, tr1) = newResolvers X opts tr
                 in case err of
                      Some e \<Rightarrow>
                        (let (closeErr, tr2) = call_closeFunc X closeBoot tr1
                         in (None, nopClose, errors_Join [Some e, closeErr], tr2))
                    | None \<Rightarrow> (Some (LazyInitializer u opts resolvers), closeBoot, None, tr1))))"

text \<open>
  One invocation of a \<^verbatim>\<open>DialerInitializer\<close>, cut at its atomic operations so that
  invocations can interleave.  The places of the resolving closure: before
  \<^verbatim>\<open>dialHandler.Load()\<close>; before \<^verbatim>\<open>bootstrap.ResolveDialContext\<close>; before
  \<^verbatim>\<open>dialHandler.CompareAndSwap(nil, &h)\<close> with the handler \<open>h\<close> just resolved; before
  the second \<^verbatim>\<open>dialHandler.Load()\<close>, whose result is dereferenced; returned; panicked
  (a nil pointer dereferenced).  The closure of the fast path returns in one step.
\<close>

datatype 'h place =
    atLoad
  | atResolve
  | atCompareAndSwap 'h
  | atReload
  | Returned "err + 'h"
  | Panicked

fun di_step ::
  "('u, 'r, 'h) extern \<Rightarrow> ('r, 'h) DialerInitializer \<Rightarrow> nat \<Rightarrow>
     'h option \<times> ('u, 'r, 'h) event list \<Rightarrow> 'h place \<Rightarrow>
     ('h option \<times> ('u, 'r, 'h) event list) \<times> 'h place" where
  "di_step X (StaticInitializer handler) t (cell, tr) atLoad = ((cell, tr), Returned (Inr handler))"
| "di_step X (LazyInitializer u opts resolvers) t (cell, tr) atLoad =
     (case cell of
        Some h \<Rightarrow> ((cell, tr), Returned (Inr h))
      | None \<Rightarrow> ((cell, tr), atResolve))"
| "di_step X (LazyInitializer u opts resolvers) t (cell, tr) atResolve =
     (let r = ResolveDialContext X tr u (Timeout opts) resolvers (PreferIPv6 opts);
          tr' = tr @ [EvResolveDialContext t u resolvers r]
      in case r of
           Inl resolveErr \<Rightarrow> ((cell, tr'), Returned (Inl (CreatingDialHandler resolveErr)))
         | Inr h \<Rightarrow> ((cell, tr'), atCompareAndSwap h))"
| "di_step X (LazyInitializer u opts resolvers) t (cell, tr) (atCompareAndSwap h) =
     (case cell of
        None \<Rightarrow> ((Some h, tr), Returned (Inr h))
      | Some other \<Rightarrow> ((cell, tr), atReload))"
| "di_step X (LazyInitializer u opts resolvers) t (cell, tr) atReload =
     (case cell of
        Some h \<Rightarrow> ((cell, tr), Returned (Inr h))
      | None \<Rightarrow> ((cell, tr), Panicked))"
| "di_step X di t s p = (s, p)"

text \<open>
  An invocation that runs alone from its first step to its return: four steps are
  enough, and a step at a place that has returned changes nothing.
\<close>

definition di_call ::
  "('u, 'r, 'h) extern \<Rightarrow> ('r, 'h) DialerInitializer \<Rightarrow> nat \<Rightarrow>
     'h option \<times> ('u, 'r, 'h) event list \<Rightarrow>
     ('h option \<times> ('u, 'r, 'h) event list) \<times> 'h place" where
  "di_call X di t s =
     (let (s1, p1) = di_step X di t s atLoad;
          (s2, p2) = di_step X di t s1 p1;
          (s3, p3) = di_step X di t s2 p2
      in di_step X di t s3 p3)"

text \<open>
  Invocations that run together: the cell, the trace and the place of every invocation
  (invocation \<open>t\<close> is entry \<open>t\<close> of the list; one at \<open>atLoad\<close> has not begun).  A
  schedule names the invocation that takes the next atomic step.
\<close>

record ('u, 'r, 'h) sys =
  cell :: "'h option"
  trace :: "('u, 'r, 'h) event list"
  places :: "'h place list"

definition sys_step ::
  "('u, 'r, 'h) extern \<Rightarrow> ('r, 'h) DialerInitializer \<Rightarrow> nat \<Rightarrow> ('u, 'r, 'h) sys \<Rightarrow> ('u, 'r, 'h) sys" where
  "sys_step X di t s =
     (if t < length (places s)
      then (let ((c, tr), p) = di_step X di t (cell s, trace s) (places s ! t)
            in \<lparr>cell = c, trace = tr, places = (places s)[t := p]\<rparr>)
      else s)"

fun run :: "('u, 'r, 'h) extern \<Rightarrow> ('r, 'h) DialerInitializer \<Rightarrow> nat list \<Rightarrow> ('u, 'r, 'h) sys \<Rightarrow> ('u, 'r, 'h) sys" where
  "run X di [] s = s"
| "run X di (t # sched) s = run X di sched (sys_step X di t s)"

section \<open>Reading a trace\<close>

text \<open>
  What an event says: the address a bootstrap resolver was asked to be built from, the
  resolver that was built, the resolver that was closed, the error its closing
  returned, and whether a constructor was handed a nil options pointer.
\<close>

fun asked_of :: "('u, 'r, 'h) event \<Rightarrow> string list" where
  "asked_of (EvNewUpstreamResolver boot opts res) = [boot]"
| "asked_of ev = []"

fun built_of :: "('u, 'r, 'h) event \<Rightarrow> 'r list" where
  "built_of (EvNewUpstreamResolver boot opts (Inr r)) = [r]"
| "built_of ev = []"

fun closed_of :: "('u, 'r, 'h) event \<Rightarrow> 'r list" where
  "closed_of (EvClose r e) = [r]"
| "closed_of ev = []"

fun close_err_of :: "('u, 'r, 'h) event \<Rightarrow> err option list" where
  "close_err_of (EvClose r e) = [e]"
| "close_err_of ev = []"

fun resolved_by :: "('u, 'r, 'h) event \<Rightarrow> nat list" where
  "resolved_by (EvResolveDialContext t u resolvers res) = [t]"
| "resolved_by ev = []"

fun passes_nil :: "('u, 'r, 'h) event \<Rightarrow> bool" where
  "passes_nil (EvConstruct c uu None res) = True"
| "passes_nil ev = False"

text \<open>The upstream-backed members of a chain, in their order.\<close>

fun upstream_backed :: "'r Resolver list \<Rightarrow> 'r list" where
  "upstream_backed [] = []"
| "upstream_backed (SystemResolver # rs) = upstream_backed rs"
| "upstream_backed (UpstreamResolver r # rs) = r # upstream_backed rs"

text \<open>
  \<open>builds X opts tr addrs bevs\<close>: asked for the addresses \<open>addrs\<close> one after the other,
  the first time after the trace \<open>tr\<close>, \<^verbatim>\<open>NewUpstreamResolver\<close> returns a resolver every
  time, and \<open>bevs\<close> are the events of these calls.
\<close>

fun builds ::
  "('u, 'r, 'h) extern \<Rightarrow> Options \<Rightarrow> ('u, 'r, 'h) event list \<Rightarrow> string list \<Rightarrow>
     ('u, 'r, 'h) event list \<Rightarrow> bool" where
  "builds X opts tr [] bevs = (bevs = [])"
| "builds X opts tr (boot # boots) [] = False"
| "builds X opts tr (boot # boots) (ev # bevs) =
     (case NewUpstreamResolver X tr boot opts of
        Inl rErr \<Rightarrow> False
      | Inr r \<Rightarrow> ev = EvNewUpstreamResolver boot opts (Inr r) \<and> builds X opts (tr @ [ev]) boots bevs)"

section \<open>The words of the specification about addresses\<close>

text \<open>
  The specification speaks of the colon-delimited suffix of a bare address, and of its
  being a 16-bit port number: the text after the last colon, when there is a colon, and
  whether \<^verbatim>\<open>strconv.ParseUint\<close> accepts it.
\<close>

definition colon_delimited_suffix :: "string \<Rightarrow> string option" where
  "colon_delimited_suffix s =
     (case LastIndexByte s CHR '':'' of None \<Rightarrow> None | Some i \<Rightarrow> Some (drop (i + 1) s))"

definition is_port16 :: "string \<Rightarrow> bool" where
  "is_port16 s = (case strconv_ParseUint_10_16 s of Inl e \<Rightarrow> False | Inr v \<Rightarrow> True)"

text \<open>
  The specification speaks of failing with a malformed-address error that includes the
  input, before any I/O: the outcome is the error \<open>failed to parse\<close> or the error
  \<open>invalid address\<close> made with the input, and the trace is the one the call began with
  (nothing outside these files was called).
\<close>

definition rejected_as_malformed ::
  "string \<Rightarrow> ('u, 'r, 'h) event list \<Rightarrow> 'u outcome \<times> Options option \<times> ('u, 'r, 'h) event list \<Rightarrow> bool" where
  "rejected_as_malformed addr tr res =
     ((case fst res of
         Failure (FailedToParse a cause) \<Rightarrow> a = addr
       | Failure (InvalidAddress a cause) \<Rightarrow> a = addr
       | _ \<Rightarrow> False)
      \<and> snd (snd res) = tr)"

section \<open>A sample environment\<close>

text \<open>
  One environment to run the model in: an upstream is the host it was built for, a
  resolver is the number of events before it was built, a handler is its list of
  addresses.  The resolver asked for \<open>''bad''\<close> cannot be built, the resolver built
  first (number \<open>0\<close>) fails to close, and the bootstrap lookup fails until a lookup has
  been tried.  The one stamp it decodes is the DNS-over-HTTPS stamp of the server
  address 1.1.1.1, the host name dns.example and the path /dns-query; the decoder adds
  the port 443 to the address, as the stamp library does for an address without one.
  The string \<open>sdns://stamp\<close> is a URL, and not a stamp.
\<close>

definition sample_url_Parse :: "string \<Rightarrow> err + url" where
  "sample_url_Parse s =
     (if s = ''tls://dns.example:853''
        then Inr \<lparr>Scheme = ''tls'', Host = ''dns.example:853'', Path = '''', Rest = ''''\<rparr>
      else if s = ''sdns://AgAAAAAAAAAABzEuMS4xLjEAC2Rucy5leGFtcGxlCi9kbnMtcXVlcnk''
        then Inr \<lparr>Scheme = ''sdns'', Host = ''AgAAAAAAAAAABzEuMS4xLjEAC2Rucy5leGFtcGxlCi9kbnMtcXVlcnk'', Path = '''', Rest = ''''\<rparr>
      else if s = ''sdns://stamp''
        then Inr \<lparr>Scheme = ''sdns'', Host = ''stamp'', Path = '''', Rest = ''''\<rparr>
      else Inl (ErrExternal ''url.Parse''))"

definition sample_stamp :: "string \<Rightarrow> err + ServerStamp" where
  "sample_stamp s =
     (if s = ''sdns://AgAAAAAAAAAABzEuMS4xLjEAC2Rucy5leGFtcGxlCi9kbnMtcXVlcnk''
        then Inr \<lparr>ServerAddrStr = ''1.1.1.1:443'', ProviderName = ''dns.example'',
                  StampPath = ''/dns-query'', Proto = StampProtoTypeDoH\<rparr>
      else Inl (ErrExternal ''dnsstamps''))"

definition sample_ParseIP :: "string \<Rightarrow> IP option" where
  "sample_ParseIP s =
     (if s = ''1.1.1.1'' then Some [1, 1, 1, 1]
      else if s = ''9.9.9.9'' then Some [9, 9, 9, 9]
      else None)"

definition sample_IP_String :: "IP \<Rightarrow> string" where
  "sample_IP_String ip =
     (if ip = [1, 1, 1, 1] then ''1.1.1.1'' else if ip = [9, 9, 9, 9] then ''9.9.9.9'' else ''?'')"

definition sample_extern :: "(string, nat, string list) extern" where
  "sample_extern =
     \<lparr>url_Parse = sample_url_Parse,
      url_String = (\<lambda>u. Scheme u @ ''://'' @ Host u @ Path u),
      NewServerStampFromString = sample_stamp,
      net_ParseIP = sample_ParseIP,
      IP_String = sample_IP_String,
      netip_ParseAddr_ok = (\<lambda>s. sample_ParseIP s \<noteq> None),
      JoinHostPort = (\<lambda>h p. h @ (if p = 853 then '':853'' else '':53'')),
      NewDialContext = (\<lambda>timeout addrs. addrs),
      newPlain = (\<lambda>tr u opts. Inr (Host u)),
      newDoQ = (\<lambda>tr u opts. Inr (Host u)),
      newDoT = (\<lambda>tr u opts. Inr (Host u)),
      newDoH = (\<lambda>tr u opts. Inr (Host u)),
      newDNSCrypt = (\<lambda>tr u opts. Host u),
      NewUpstreamResolver =
        (\<lambda>tr boot opts. if boot = ''bad'' then Inl (ErrExternal ''creating upstream'')
                         else Inr (length tr)),
      Close = (\<lambda>tr r. if r = 0 then Some (ErrExternal ''closing'') else None),
      ResolveDialContext =
        (\<lambda>tr u timeout resolvers prefer.
           if concat (map resolved_by tr) = [] then Inl (ErrExternal ''lookup'')
           else Inr [''192.0.2.1:853''])\<rparr>"

text \<open>
  A DNS-over-TLS upstream named by its host, options with three bootstrap entries (the
  second one the system default), and options whose third entry cannot be built.
\<close>

definition sample_url :: url where
  "sample_url = \<lparr>Scheme = ''tls'', Host = ''dns.example:853'', Path = '''', Rest = ''''\<rparr>"

definition sample_Options :: Options where
  "sample_Options = zero_Options\<lparr>Bootstrap := [''8.8.8.8:53'', '''', ''9.9.9.9:53'']\<rparr>"

definition failing_Options :: Options where
  "failing_Options = zero_Options\<lparr>Bootstrap := [''8.8.8.8:53'', '''', ''bad'', ''9.9.9.9:53'']\<rparr>"

text \<open>The resolving initializer of the sample upstream, with the chain built for it.\<close>

definition sample_di :: "(nat, string list) DialerInitializer" where
  "sample_di =
     LazyInitializer sample_url sample_Options [UpstreamResolver 0, SystemResolver, UpstreamResolver 1]"

definition sample_iplib :: "(IP, IP, IP) iplib" where
  "sample_iplib =
     \<lparr>IPFromRR = (\<lambda>rr. rr),
      ValidateIP_ok = (\<lambda>ip. length ip = 4 \<or> length ip = 16),
      Contains = (\<lambda>n ip. take (length n) ip = n)\<rparr>"

section \<open>Properties of the bogus NXDOMAIN detection\<close>

lemma containsIP_loop_iff:
  "containsIP_loop L nets ip \<longleftrightarrow> (\<exists>n \<in> set nets. Contains L n ip)"
  by (induction nets) auto

lemma containsIP_iff:
  "containsIP L nets ip \<longleftrightarrow> ValidateIP_ok L ip \<and> (\<exists>n \<in> set nets. Contains L n ip)"
  by (simp add: containsIP_def containsIP_loop_iff)

lemma isBogusNXDomain_loop_iff:
  "isBogusNXDomain_loop L nets rrs \<longleftrightarrow>
     (\<exists>rr \<in> set rrs. ValidateIP_ok L (IPFromRR L rr) \<and> (\<exists>n \<in> set nets. Contains L n (IPFromRR L rr)))"
  by (induction rrs) (auto simp: containsIP_iff Let_def)

text \<open>
  Claim C9.  \<^verbatim>\<open>isBogusNXDomain\<close> returns true exactly when the message is not nil, the
  proxy has at least one bogus subnet, the message has a question, the type of its first
  question is A or AAAA, and some record of the answer section carries an address that
  \<^verbatim>\<open>netutil.ValidateIP\<close> accepts and that one of the subnets contains.  In every other
  case it returns false.
\<close>

theorem isBogusNXDomain_iff:
  "isBogusNXDomain L p mp \<longleftrightarrow>
     (\<exists>m. mp = Some m \<and> BogusNXDomain p \<noteq> [] \<and> Question m \<noteq> [] \<and>
          (Qtype (hd (Question m)) = TypeA \<or> Qtype (hd (Question m)) = TypeAAAA) \<and>
          (\<exists>rr \<in> set (Answer m).
              ValidateIP_ok L (IPFromRR L rr) \<and>
              (\<exists>n \<in> set (BogusNXDomain p). Contains L n (IPFromRR L rr))))"
proof (cases mp)
  case None
  then show ?thesis by (simp add: isBogusNXDomain_def)
next
  case (Some m)
  show ?thesis
  proof (cases "Question m")
    case Nil
    with Some show ?thesis by (simp add: isBogusNXDomain_def)
  next
    case (Cons q qs)
    with Some show ?thesis
      by (auto simp: isBogusNXDomain_def isBogusNXDomain_loop_iff Let_def)
  qed
qed

text \<open>
  The theorem at work on the subnet 10.0.0.0/16: an AAAA question answered with
  10.0.0.1 is bogus; the same answer to an MX question is not, nor is an answer whose
  only address in the subnet has three bytes, nor a nil message.
\<close>

theorem isBogusNXDomain_iff_witness:
  "isBogusNXDomain sample_iplib \<lparr>BogusNXDomain = [[10, 0]]\<rparr>
     (Some \<lparr>Question = [\<lparr>Name = ''example.org.'', Qtype = 28, Qclass = 1\<rparr>],
            Answer = [[192, 0, 2, 1], [10, 0, 0, 1]], Ns = [], Extra = []\<rparr>)
   \<and> \<not> isBogusNXDomain sample_iplib \<lparr>BogusNXDomain = [[10, 0]]\<rparr>
     (Some \<lparr>Question = [\<lparr>Name = ''example.org.'', Qtype = 15, Qclass = 1\<rparr>],
            Answer = [[192, 0, 2, 1], [10, 0, 0, 1]], Ns = [], Extra = []\<rparr>)
   \<and> \<not> isBogusNXDomain sample_iplib \<lparr>BogusNXDomain = [[10, 0]]\<rparr>
     (Some \<lparr>Question = [\<lparr>Name = ''example.org.'', Qtype = 1, Qclass = 1\<rparr>],
            Answer = [[192, 0, 2, 1], [10, 0, 1]], Ns = [], Extra = []\<rparr>)
   \<and> \<not> isBogusNXDomain sample_iplib \<lparr>BogusNXDomain = [[10, 0]]\<rparr> None"
  using isBogusNXDomain_iff [of sample_iplib "\<lparr>BogusNXDomain = [[10, 0]]\<rparr>"]
  by (simp add: sample_iplib_def TypeA_def TypeAAAA_def)

section \<open>The sample environment, evaluated\<close>

lemmas split_defs =
  net_SplitHostPort_def LastIndexByte_def IndexByte_def SplitHostPort_finish_def

lemmas port_defs = strconv_ParseUint_10_16_def is_digit_def digit_val_def

lemmas dispatch_defs = urlToUpstream_def call_constructor_def returned_def Let_def

lemma split_v6:
  "net_SplitHostPort ''2001:db8::ff'' = Inl (AddrError tooManyColons ''2001:db8::ff'')"
  by (simp add: split_defs)

lemma split_8888: "net_SplitHostPort ''8.8.8.8:53'' = Inr (''8.8.8.8'', ''53'')"
  by (simp add: split_defs)

lemma split_99999:
  "net_SplitHostPort ''dns.example:99999'' = Inr (''dns.example'', ''99999'')"
  by (simp add: split_defs)

lemma port_53: "strconv_ParseUint_10_16 ''53'' = Inr 53"
  by (simp add: port_defs)

lemma port_99999:
  "strconv_ParseUint_10_16 ''99999'' = Inl (NumError ''ParseUint'' ''99999'' ErrRange)"
  by (simp add: port_defs)

lemma split_1111: "netutil_SplitHostPort ''1.1.1.1:443'' = Inr (''1.1.1.1'', 443)"
  by (simp add: netutil_SplitHostPort_def split_defs port_defs)

lemma sample_stamp_url:
  "url_String sample_extern
     \<lparr>Scheme = ''sdns'', Host = ''AgAAAAAAAAAABzEuMS4xLjEAC2Rucy5leGFtcGxlCi9kbnMtcXVlcnk'', Path = '''', Rest = ''''\<rparr> =
   ''sdns://AgAAAAAAAAAABzEuMS4xLjEAC2Rucy5leGFtcGxlCi9kbnMtcXVlcnk''"
  by (simp add: sample_extern_def)

lemma sample_stamp_decoded:
  "NewServerStampFromString sample_extern ''sdns://AgAAAAAAAAAABzEuMS4xLjEAC2Rucy5leGFtcGxlCi9kbnMtcXVlcnk'' =
     Inr \<lparr>ServerAddrStr = ''1.1.1.1:443'', ProviderName = ''dns.example'',
          StampPath = ''/dns-query'', Proto = StampProtoTypeDoH\<rparr>"
  by (simp add: sample_extern_def sample_stamp_def)

lemma sample_ParseIP_1111: "net_ParseIP sample_extern ''1.1.1.1'' = Some [1, 1, 1, 1]"
  by (simp add: sample_extern_def sample_ParseIP_def)

lemma sample_url_sdns:
  "url_Parse sample_extern ''sdns://AgAAAAAAAAAABzEuMS4xLjEAC2Rucy5leGFtcGxlCi9kbnMtcXVlcnk'' =
     Inr \<lparr>Scheme = ''sdns'', Host = ''AgAAAAAAAAAABzEuMS4xLjEAC2Rucy5leGFtcGxlCi9kbnMtcXVlcnk'', Path = '''', Rest = ''''\<rparr>"
  by (simp add: sample_extern_def sample_url_Parse_def)

lemma sample_sdns_run:
  "AddressToUpstream sample_extern ''sdns://AgAAAAAAAAAABzEuMS4xLjEAC2Rucy5leGFtcGxlCi9kbnMtcXVlcnk'' (Some zero_Options) [] =
     (Upstream ''dns.example'', Some (zero_Options\<lparr>ServerIPAddrs := [[1, 1, 1, 1]]\<rparr>),
      [EvConstruct NewDoH
         \<lparr>Scheme = ''https'', Host = ''dns.example'', Path = ''/dns-query'', Rest = ''''\<rparr>
         (Some (zero_Options\<lparr>ServerIPAddrs := [[1, 1, 1, 1]]\<rparr>)) (Inr ''dns.example'')])"
proof -
  have c: "strings_Contains ''sdns://AgAAAAAAAAAABzEuMS4xLjEAC2Rucy5leGFtcGxlCi9kbnMtcXVlcnk'' ''://''" by simp
  have "parseStamp sample_extern
       \<lparr>Scheme = ''sdns'', Host = ''AgAAAAAAAAAABzEuMS4xLjEAC2Rucy5leGFtcGxlCi9kbnMtcXVlcnk'', Path = '''', Rest = ''''\<rparr>
       (Some zero_Options) [] =
     (Upstream ''dns.example'', Some (zero_Options\<lparr>ServerIPAddrs := [[1, 1, 1, 1]]\<rparr>),
      [EvConstruct NewDoH
         \<lparr>Scheme = ''https'', Host = ''dns.example'', Path = ''/dns-query'', Rest = ''''\<rparr>
         (Some (zero_Options\<lparr>ServerIPAddrs := [[1, 1, 1, 1]]\<rparr>)) (Inr ''dns.example'')])"
    unfolding parseStamp_def sample_stamp_url sample_stamp_decoded
    by (simp add: split_1111 sample_ParseIP_1111 call_constructor_def returned_def Let_def)
       (simp add: sample_extern_def)
  then show ?thesis
    by (simp add: AddressToUpstream_def c sample_url_sdns urlToUpstream_def)
qed

section \<open>Properties of address parsing and dispatch\<close>

lemma returned_not_panic: "returned r \<noteq> PanicNilDereference"
  by (cases r) (simp_all add: returned_def)

lemma parseStamp_non_nil:
  assumes "parseStamp X upsURL (Some ov) tr = (out, opts', tr')"
  shows "out \<noteq> PanicNilDereference \<and>
         (tr' = tr \<or> (\<exists>c uu ov' r. tr' = tr @ [EvConstruct c uu (Some ov') r]))"
  using assms
  by (auto simp: parseStamp_def Let_def call_constructor_def returned_not_panic
           split: sum.splits option.splits if_splits StampProtoType.splits prod.splits)

lemma urlToUpstream_non_nil:
  assumes "urlToUpstream X uu (Some ov) tr = (out, opts', tr')"
  shows "out \<noteq> PanicNilDereference \<and>
         (tr' = tr \<or> (\<exists>c uu' ov' r. tr' = tr @ [EvConstruct c uu' (Some ov') r]))"
proof (cases "Scheme uu = ''sdns''")
  case True
  with assms have "parseStamp X uu (Some ov) tr = (out, opts', tr')"
    by (simp add: urlToUpstream_def)
  from parseStamp_non_nil [OF this] show ?thesis .
next
  case False
  with assms show ?thesis
    by (auto simp: urlToUpstream_def Let_def call_constructor_def returned_not_panic
             split: if_splits)
qed

lemma AddressToUpstream_non_nil:
  assumes "AddressToUpstream X addr opts0 tr = (out, opts', tr')"
  shows "out \<noteq> PanicNilDereference \<and>
         (tr' = tr \<or> (\<exists>c uu' ov' r. tr' = tr @ [EvConstruct c uu' (Some ov') r]))"
proof -
  obtain ov where ov: "(case opts0 of None \<Rightarrow> Some zero_Options | Some ov \<Rightarrow> Some ov) = Some ov"
    by (cases opts0) auto
  show ?thesis
    using assms urlToUpstream_non_nil [of X _ ov tr out opts' tr']
    unfolding AddressToUpstream_def ov Let_def
    by (auto split: if_splits sum.splits prod.splits)
qed

text \<open>
  Claim C10.  A nil \<^verbatim>\<open>Options\<close> pointer does not make \<^verbatim>\<open>AddressToUpstream\<close> fail:
  the call does what the call with a pointer to a fresh zero-value \<^verbatim>\<open>Options\<close> does
  (same outcome, same options afterwards, same calls to the outside), it never ends in a
  nil pointer dereference, and no transport constructor it calls is handed a nil
  options pointer.
\<close>

theorem AddressToUpstream_nil_Options:
  "AddressToUpstream X addr None tr = AddressToUpstream X addr (Some zero_Options) tr
   \<and> fst (AddressToUpstream X addr None tr) \<noteq> PanicNilDereference
   \<and> (\<exists>evs. snd (snd (AddressToUpstream X addr None tr)) = tr @ evs
            \<and> (\<forall>ev \<in> set evs. \<not> passes_nil ev))"
proof -
  obtain out opts' tr' where r: "AddressToUpstream X addr None tr = (out, opts', tr')"
    by (cases "AddressToUpstream X addr None tr") auto
  from AddressToUpstream_non_nil [OF r]
  have 1: "out \<noteq> PanicNilDereference"
    and 2: "tr' = tr \<or> (\<exists>c uu' ov' r. tr' = tr @ [EvConstruct c uu' (Some ov') r])"
    by auto
  from 2 have "\<exists>evs. tr' = tr @ evs \<and> (\<forall>ev \<in> set evs. \<not> passes_nil ev)"
  proof
    assume "tr' = tr"
    then have "tr' = tr @ [] \<and> (\<forall>ev \<in> set []. \<not> passes_nil ev)" by simp
    then show ?thesis by blast
  next
    assume "\<exists>c uu' ov' r. tr' = tr @ [EvConstruct c uu' (Some ov') r]"
    then obtain c uu' ov' r where "tr' = tr @ [EvConstruct c uu' (Some ov') r]" by blast
    then have "tr' = tr @ [EvConstruct c uu' (Some ov') r]
                 \<and> (\<forall>ev \<in> set [EvConstruct c uu' (Some ov') r]. \<not> passes_nil ev)" by simp
    then show ?thesis by blast
  qed
  then have 3: "\<exists>evs. snd (snd (AddressToUpstream X addr None tr)) = tr @ evs
            \<and> (\<forall>ev \<in> set evs. \<not> passes_nil ev)"
    by (simp add: r)
  have 4: "AddressToUpstream X addr None tr = AddressToUpstream X addr (Some zero_Options) tr"
    by (simp add: AddressToUpstream_def)
  have 5: "fst (AddressToUpstream X addr None tr) \<noteq> PanicNilDereference"
    using 1 by (simp add: r)
  from 4 5 3 show ?thesis by blast
qed

text \<open>
  The theorem on a stamp whose server address is written through the options pointer:
  with nil options the write goes to the fresh zero value.
\<close>

theorem AddressToUpstream_nil_Options_witness:
  "AddressToUpstream sample_extern ''sdns://AgAAAAAAAAAABzEuMS4xLjEAC2Rucy5leGFtcGxlCi9kbnMtcXVlcnk'' None [] =
     (Upstream ''dns.example'', Some (zero_Options\<lparr>ServerIPAddrs := [[1, 1, 1, 1]]\<rparr>),
      [EvConstruct NewDoH
         \<lparr>Scheme = ''https'', Host = ''dns.example'', Path = ''/dns-query'', Rest = ''''\<rparr>
         (Some (zero_Options\<lparr>ServerIPAddrs := [[1, 1, 1, 1]]\<rparr>)) (Inr ''dns.example'')])"
  using AddressToUpstream_nil_Options [of sample_extern "''sdns://AgAAAAAAAAAABzEuMS4xLjEAC2Rucy5leGFtcGxlCi9kbnMtcXVlcnk''" "[]"]
    sample_sdns_run
  by simp

lemma call_constructor_not_rejected:
  "\<not> rejected_as_malformed addr tr (call_constructor X c uu opts tr)"
  by (simp add: rejected_as_malformed_def call_constructor_def Let_def)

lemma parseStamp_rejected_iff:
  "rejected_as_malformed addr tr (parseStamp X uu opts tr) \<longleftrightarrow>
     url_String X uu = addr \<and> (\<exists>e. NewServerStampFromString X (url_String X uu) = Inl e)"
proof (cases "NewServerStampFromString X (url_String X uu)")
  case (Inl e)
  then show ?thesis by (auto simp: parseStamp_def rejected_as_malformed_def)
next
  case (Inr stamp)
  then show ?thesis
    by (auto simp: parseStamp_def rejected_as_malformed_def call_constructor_def Let_def
             split: sum.splits option.splits StampProtoType.splits prod.splits)
qed

lemma urlToUpstream_rejected_iff:
  "rejected_as_malformed addr tr (urlToUpstream X uu opts tr) \<longleftrightarrow>
     Scheme uu = ''sdns'' \<and> url_String X uu = addr
     \<and> (\<exists>e. NewServerStampFromString X (url_String X uu) = Inl e)"
proof (cases "Scheme uu = ''sdns''")
  case True
  then show ?thesis by (simp add: urlToUpstream_def parseStamp_rejected_iff)
next
  case False
  have "\<not> rejected_as_malformed addr tr (Failure (UnsupportedURLScheme (Scheme uu)), opts, tr)"
    by (simp add: rejected_as_malformed_def)
  with False show ?thesis
    by (simp add: urlToUpstream_def Let_def call_constructor_not_rejected)
qed

lemma sample_not_a_stamp:
  "AddressToUpstream sample_extern ''sdns://stamp'' None [] =
     (Failure (FailedToParse ''sdns://stamp'' (ErrExternal ''dnsstamps'')), Some zero_Options, [])"
proof -
  have c: "strings_Contains ''sdns://stamp'' ''://''" by simp
  have p: "url_Parse sample_extern ''sdns://stamp'' =
      Inr \<lparr>Scheme = ''sdns'', Host = ''stamp'', Path = '''', Rest = ''''\<rparr>"
    by (simp add: sample_extern_def sample_url_Parse_def)
  have s: "url_String sample_extern \<lparr>Scheme = ''sdns'', Host = ''stamp'', Path = '''', Rest = ''''\<rparr>
      = ''sdns://stamp''"
    by (simp add: sample_extern_def)
  have d: "NewServerStampFromString sample_extern ''sdns://stamp'' = Inl (ErrExternal ''dnsstamps'')"
    by (simp add: sample_extern_def sample_stamp_def)
  show ?thesis
    by (simp add: AddressToUpstream_def c p urlToUpstream_def parseStamp_def s d)
qed

lemma sample_v6_run:
  "AddressToUpstream sample_extern ''2001:db8::ff'' None [] =
       (Upstream ''2001:db8::ff'', Some zero_Options,
        [EvConstruct NewPlain \<lparr>Scheme = ''udp'', Host = ''2001:db8::ff'', Path = '''', Rest = ''''\<rparr>
           (Some zero_Options) (Inr ''2001:db8::ff'')])"
  by (simp add: AddressToUpstream_def split_v6 dispatch_defs sample_extern_def)

text \<open>
  Claim C7, as the specification states it, fails in both directions.  A bare IPv6
  address: the text after its last colon is not a port number, and the address is not
  rejected but handed on as a plain UDP upstream.  A string with \<open>://\<close> that is a URL
  of the scheme \<open>sdns\<close> and not a stamp: \<^verbatim>\<open>url.Parse\<close> accepts it, and it is rejected
  with the failed-to-parse error that holds it, before any call to the outside.
\<close>

theorem malformed_address_claim_fails:
  "\<not> strings_Contains ''2001:db8::ff'' ''://''
   \<and> colon_delimited_suffix ''2001:db8::ff'' = Some ''ff''
   \<and> \<not> is_port16 ''ff''
   \<and> AddressToUpstream sample_extern ''2001:db8::ff'' None [] =
       (Upstream ''2001:db8::ff'', Some zero_Options,
        [EvConstruct NewPlain \<lparr>Scheme = ''udp'', Host = ''2001:db8::ff'', Path = '''', Rest = ''''\<rparr>
           (Some zero_Options) (Inr ''2001:db8::ff'')])
   \<and> \<not> rejected_as_malformed ''2001:db8::ff'' [] (AddressToUpstream sample_extern ''2001:db8::ff'' None [])
   \<and> strings_Contains ''sdns://stamp'' ''://''
   \<and> url_Parse sample_extern ''sdns://stamp'' =
        Inr \<lparr>Scheme = ''sdns'', Host = ''stamp'', Path = '''', Rest = ''''\<rparr>
   \<and> AddressToUpstream sample_extern ''sdns://stamp'' None [] =
        (Failure (FailedToParse ''sdns://stamp'' (ErrExternal ''dnsstamps'')), Some zero_Options, [])
   \<and> rejected_as_malformed ''sdns://stamp'' [] (AddressToUpstream sample_extern ''sdns://stamp'' None [])"
proof -
  have 1: "\<not> strings_Contains ''2001:db8::ff'' ''://''" by simp
  have 2: "colon_delimited_suffix ''2001:db8::ff'' = Some ''ff''"
    by (simp add: colon_delimited_suffix_def LastIndexByte_def)
  have 3: "\<not> is_port16 ''ff''"
    by (simp add: is_port16_def port_defs)
  have 5: "\<not> rejected_as_malformed ''2001:db8::ff'' []
             (AddressToUpstream sample_extern ''2001:db8::ff'' None [])"
    by (simp add: sample_v6_run rejected_as_malformed_def)
  have 6: "strings_Contains ''sdns://stamp'' ''://''" by simp
  have 7: "url_Parse sample_extern ''sdns://stamp'' =
      Inr \<lparr>Scheme = ''sdns'', Host = ''stamp'', Path = '''', Rest = ''''\<rparr>"
    by (simp add: sample_extern_def sample_url_Parse_def)
  have 9: "rejected_as_malformed ''sdns://stamp'' []
             (AddressToUpstream sample_extern ''sdns://stamp'' None [])"
    by (simp add: sample_not_a_stamp rejected_as_malformed_def)
  from 1 2 3 sample_v6_run 5 6 7 sample_not_a_stamp 9 show ?thesis by blast
qed

text \<open>
  Claim C7, amended.  The result of \<^verbatim>\<open>AddressToUpstream\<close> is a malformed-address
  error that holds the address (\<open>failed to parse\<close> or \<open>invalid address\<close>), with no call
  to the outside (the trace is unchanged), if and only if one of three cases holds: the
  address contains \<open>://\<close> and \<^verbatim>\<open>url.Parse\<close> rejects it; or it contains \<open>://\<close>,
  \<^verbatim>\<open>url.Parse\<close> accepts it with the scheme \<open>sdns\<close>, the URL prints back as the
  address, and the stamp decoder rejects it; or it does not contain \<open>://\<close>,
  \<^verbatim>\<open>net.SplitHostPort\<close> splits it into host and port, and the port is not a decimal
  number below \<open>65536\<close>.  The result in each of these cases is given.  A bare address
  that \<^verbatim>\<open>net.SplitHostPort\<close> does not split is handed to \<^verbatim>\<open>newPlain\<close> as a \<open>udp\<close>
  URL whose host is the whole address, whatever follows its last colon.
\<close>

theorem AddressToUpstream_malformed_iff:
  fixes X :: "('u, 'r, 'h) extern" and opts0 :: "Options option" and addr :: string
  defines "opts \<equiv> (case opts0 of None \<Rightarrow> Some zero_Options | Some ov \<Rightarrow> Some ov)"
  defines "bare \<equiv> \<lparr>Scheme = ''udp'', Host = addr, Path = '''', Rest = ''''\<rparr>"
  shows
    "(rejected_as_malformed addr tr (AddressToUpstream X addr opts0 tr) \<longleftrightarrow>
        (strings_Contains addr ''://'' \<and> (\<exists>e. url_Parse X addr = Inl e))
      \<or> (strings_Contains addr ''://''
           \<and> (\<exists>uu e. url_Parse X addr = Inr uu \<and> Scheme uu = ''sdns'' \<and> url_String X uu = addr
                   \<and> NewServerStampFromString X addr = Inl e))
      \<or> (\<not> strings_Contains addr ''://''
           \<and> (\<exists>host port e. net_SplitHostPort addr = Inr (host, port)
                   \<and> strconv_ParseUint_10_16 port = Inl e)))
     \<and> (\<forall>e. strings_Contains addr ''://'' \<longrightarrow> url_Parse X addr = Inl e \<longrightarrow>
            AddressToUpstream X addr opts0 tr = (Failure (FailedToParse addr e), opts, tr))
     \<and> (\<forall>uu e. strings_Contains addr ''://'' \<longrightarrow> url_Parse X addr = Inr uu \<longrightarrow>
            Scheme uu = ''sdns'' \<longrightarrow> NewServerStampFromString X (url_String X uu) = Inl e \<longrightarrow>
            AddressToUpstream X addr opts0 tr =
              (Failure (FailedToParse (url_String X uu) e), opts, tr))
     \<and> (\<forall>host port e. \<not> strings_Contains addr ''://'' \<longrightarrow>
            net_SplitHostPort addr = Inr (host, port) \<longrightarrow>
            strconv_ParseUint_10_16 port = Inl e \<longrightarrow>
            AddressToUpstream X addr opts0 tr = (Failure (InvalidAddress addr e), opts, tr))
     \<and> (\<forall>splitErr. \<not> strings_Contains addr ''://'' \<longrightarrow>
            net_SplitHostPort addr = Inl splitErr \<longrightarrow>
            AddressToUpstream X addr opts0 tr = call_constructor X NewPlain bare opts tr)"
proof -
  have bare_no: "\<not> rejected_as_malformed addr tr (urlToUpstream X bare opts tr)"
    by (simp add: urlToUpstream_rejected_iff bare_def)
  have iff: "rejected_as_malformed addr tr (AddressToUpstream X addr opts0 tr) \<longleftrightarrow>
        (strings_Contains addr ''://'' \<and> (\<exists>e. url_Parse X addr = Inl e))
      \<or> (strings_Contains addr ''://''
           \<and> (\<exists>uu e. url_Parse X addr = Inr uu \<and> Scheme uu = ''sdns'' \<and> url_String X uu = addr
                   \<and> NewServerStampFromString X addr = Inl e))
      \<or> (\<not> strings_Contains addr ''://''
           \<and> (\<exists>host port e. net_SplitHostPort addr = Inr (host, port)
                   \<and> strconv_ParseUint_10_16 port = Inl e))"
  proof (cases "strings_Contains addr ''://''")
    case True
    show ?thesis
    proof (cases "url_Parse X addr")
      case (Inl e)
      with True have "AddressToUpstream X addr opts0 tr = (Failure (FailedToParse addr e), opts, tr)"
        by (simp add: AddressToUpstream_def opts_def)
      then have "rejected_as_malformed addr tr (AddressToUpstream X addr opts0 tr)"
        by (simp add: rejected_as_malformed_def)
      with True Inl show ?thesis by simp
    next
      case (Inr uu)
      with True have "AddressToUpstream X addr opts0 tr = urlToUpstream X uu opts tr"
        by (simp add: AddressToUpstream_def opts_def)
      then have "rejected_as_malformed addr tr (AddressToUpstream X addr opts0 tr) \<longleftrightarrow>
          Scheme uu = ''sdns'' \<and> url_String X uu = addr
          \<and> (\<exists>e. NewServerStampFromString X (url_String X uu) = Inl e)"
        by (simp add: urlToUpstream_rejected_iff)
      with True Inr show ?thesis by auto
    qed
  next
    case False
    show ?thesis
    proof (cases "net_SplitHostPort addr")
      case (Inl splitErr)
      with False have "AddressToUpstream X addr opts0 tr = urlToUpstream X bare opts tr"
        by (simp add: AddressToUpstream_def opts_def bare_def)
      with bare_no False Inl show ?thesis by simp
    next
      case (Inr hp)
      obtain host port where hp: "hp = (host, port)" by (cases hp)
      show ?thesis
      proof (cases "strconv_ParseUint_10_16 port")
        case (Inl e)
        with False Inr hp
        have "AddressToUpstream X addr opts0 tr = (Failure (InvalidAddress addr e), opts, tr)"
          by (simp add: AddressToUpstream_def opts_def)
        then have "rejected_as_malformed addr tr (AddressToUpstream X addr opts0 tr)"
          by (simp add: rejected_as_malformed_def)
        with False Inr hp Inl show ?thesis by simp
      next
        case (Inr v)
        with False \<open>net_SplitHostPort addr = Inr hp\<close> hp
        have "AddressToUpstream X addr opts0 tr = urlToUpstream X bare opts tr"
          by (simp add: AddressToUpstream_def opts_def bare_def)
        with bare_no False \<open>net_SplitHostPort addr = Inr hp\<close> hp Inr show ?thesis by simp
      qed
    qed
  qed
  have rest:
    "(\<forall>e. strings_Contains addr ''://'' \<longrightarrow> url_Parse X addr = Inl e \<longrightarrow>
            AddressToUpstream X addr opts0 tr = (Failure (FailedToParse addr e), opts, tr))
     \<and> (\<forall>uu e. strings_Contains addr ''://'' \<longrightarrow> url_Parse X addr = Inr uu \<longrightarrow>
            Scheme uu = ''sdns'' \<longrightarrow> NewServerStampFromString X (url_String X uu) = Inl e \<longrightarrow>
            AddressToUpstream X addr opts0 tr =
              (Failure (FailedToParse (url_String X uu) e), opts, tr))
     \<and> (\<forall>host port e. \<not> strings_Contains addr ''://'' \<longrightarrow>
            net_SplitHostPort addr = Inr (host, port) \<longrightarrow>
            strconv_ParseUint_10_16 port = Inl e \<longrightarrow>
            AddressToUpstream X addr opts0 tr = (Failure (InvalidAddress addr e), opts, tr))
     \<and> (\<forall>splitErr. \<not> strings_Contains addr ''://'' \<longrightarrow>
            net_SplitHostPort addr = Inl splitErr \<longrightarrow>
            AddressToUpstream X addr opts0 tr = call_constructor X NewPlain bare opts tr)"
    by (simp add: AddressToUpstream_def opts_def bare_def urlToUpstream_def parseStamp_def)
  from iff rest show ?thesis by blast
qed

text \<open>
  Six addresses in the sample environment.  Rejected: a string with \<open>://\<close> that is not
  a URL, an \<open>sdns\<close> URL that is not a stamp, and a bare address with the port 99999.
  Not rejected: a bare address with the port 53, a bare IPv6 address, and a \<open>tls\<close> URL.
\<close>

theorem AddressToUpstream_malformed_iff_witness:
  "rejected_as_malformed ''tls://dns example'' []
     (AddressToUpstream sample_extern ''tls://dns example'' None [])
   \<and> rejected_as_malformed ''sdns://stamp'' []
     (AddressToUpstream sample_extern ''sdns://stamp'' None [])
   \<and> rejected_as_malformed ''dns.example:99999'' []
     (AddressToUpstream sample_extern ''dns.example:99999'' None [])
   \<and> \<not> rejected_as_malformed ''8.8.8.8:53'' []
     (AddressToUpstream sample_extern ''8.8.8.8:53'' None [])
   \<and> \<not> rejected_as_malformed ''2001:db8::ff'' []
     (AddressToUpstream sample_extern ''2001:db8::ff'' None [])
   \<and> \<not> rejected_as_malformed ''tls://dns.example:853'' []
     (AddressToUpstream sample_extern ''tls://dns.example:853'' None [])
   \<and> AddressToUpstream sample_extern ''dns.example:99999'' None [] =
     (Failure (InvalidAddress ''dns.example:99999'' (NumError ''ParseUint'' ''99999'' ErrRange)),
      Some zero_Options, [])"
proof -
  have c1: "strings_Contains ''tls://dns example'' ''://''" by simp
  have p1: "url_Parse sample_extern ''tls://dns example'' = Inl (ErrExternal ''url.Parse'')"
    by (simp add: sample_extern_def sample_url_Parse_def)
  have c2: "strings_Contains ''sdns://stamp'' ''://''" by simp
  have p2: "url_Parse sample_extern ''sdns://stamp'' =
      Inr \<lparr>Scheme = ''sdns'', Host = ''stamp'', Path = '''', Rest = ''''\<rparr>"
    by (simp add: sample_extern_def sample_url_Parse_def)
  have s2: "url_String sample_extern \<lparr>Scheme = ''sdns'', Host = ''stamp'', Path = '''', Rest = ''''\<rparr>
      = ''sdns://stamp''"
    by (simp add: sample_extern_def)
  have d2: "NewServerStampFromString sample_extern ''sdns://stamp'' = Inl (ErrExternal ''dnsstamps'')"
    by (simp add: sample_extern_def sample_stamp_def)
  have n3: "\<not> strings_Contains ''dns.example:99999'' ''://''" by simp
  have n4: "\<not> strings_Contains ''8.8.8.8:53'' ''://''" by simp
  have n5: "\<not> strings_Contains ''2001:db8::ff'' ''://''" by simp
  have c6: "strings_Contains ''tls://dns.example:853'' ''://''" by simp
  have p6: "url_Parse sample_extern ''tls://dns.example:853'' = Inr sample_url"
    by (simp add: sample_extern_def sample_url_Parse_def sample_url_def)
  have s6: "Scheme sample_url \<noteq> ''sdns''" by (simp add: sample_url_def)
  have 1: "rejected_as_malformed ''tls://dns example'' []
     (AddressToUpstream sample_extern ''tls://dns example'' None [])"
    using AddressToUpstream_malformed_iff
            [where X = sample_extern and ?opts0.0 = None and tr = "[]" and addr = "''tls://dns example''",
             THEN conjunct1] c1 p1 by simp
  have 2: "rejected_as_malformed ''sdns://stamp'' []
     (AddressToUpstream sample_extern ''sdns://stamp'' None [])"
    using AddressToUpstream_malformed_iff
            [where X = sample_extern and ?opts0.0 = None and tr = "[]" and addr = "''sdns://stamp''",
             THEN conjunct1] c2 p2 s2 d2 by simp
  have 3: "rejected_as_malformed ''dns.example:99999'' []
     (AddressToUpstream sample_extern ''dns.example:99999'' None [])"
    using AddressToUpstream_malformed_iff
            [where X = sample_extern and ?opts0.0 = None and tr = "[]" and addr = "''dns.example:99999''",
             THEN conjunct1] n3 split_99999 port_99999 by simp
  have 4: "\<not> rejected_as_malformed ''8.8.8.8:53'' []
     (AddressToUpstream sample_extern ''8.8.8.8:53'' None [])"
    using AddressToUpstream_malformed_iff
            [where X = sample_extern and ?opts0.0 = None and tr = "[]" and addr = "''8.8.8.8:53''",
             THEN conjunct1] n4 split_8888 port_53 by simp
  have 5: "\<not> rejected_as_malformed ''2001:db8::ff'' []
     (AddressToUpstream sample_extern ''2001:db8::ff'' None [])"
    using AddressToUpstream_malformed_iff
            [where X = sample_extern and ?opts0.0 = None and tr = "[]" and addr = "''2001:db8::ff''",
             THEN conjunct1] n5 split_v6 by simp
  have 6: "\<not> rejected_as_malformed ''tls://dns.example:853'' []
     (AddressToUpstream sample_extern ''tls://dns.example:853'' None [])"
    using AddressToUpstream_malformed_iff
            [where X = sample_extern and ?opts0.0 = None and tr = "[]" and addr = "''tls://dns.example:853''",
             THEN conjunct1] c6 p6 s6 by simp
  have 7: "AddressToUpstream sample_extern ''dns.example:99999'' None [] =
     (Failure (InvalidAddress ''dns.example:99999'' (NumError ''ParseUint'' ''99999'' ErrRange)),
      Some zero_Options, [])"
    using AddressToUpstream_malformed_iff
            [where X = sample_extern and ?opts0.0 = None and tr = "[]" and addr = "''dns.example:99999''",
             THEN conjunct2, THEN conjunct2, THEN conjunct2, THEN conjunct1] n3 split_99999 port_99999 by simp
  from 1 2 3 4 5 6 7 show ?thesis by blast
qed

text \<open>
  Claim C6.  When the decoded stamp carries a server address that is not empty and is a
  literal IP address (\<^verbatim>\<open>net.ParseIP\<close> accepts its host part), then after
  \<^verbatim>\<open>parseStamp\<close> the options hold exactly that one address: the list configured before
  is replaced, not extended, whatever it was, and a transport constructor that is then
  called gets these options.
\<close>

theorem parseStamp_replaces_ServerIPAddrs:
  assumes "NewServerStampFromString X (url_String X upsURL) = Inr stamp"
    and "ServerAddrStr stamp \<noteq> ''''"
    and "net_ParseIP X (case netutil_SplitHostPort (ServerAddrStr stamp) of
                          Inl sErr \<Rightarrow> ServerAddrStr stamp | Inr (h, p) \<Rightarrow> h) = Some ip"
  shows "fst (snd (parseStamp X upsURL (Some ov) tr)) = Some (ov\<lparr>ServerIPAddrs := [ip]\<rparr>)
     \<and> (\<forall>ov'. fst (snd (parseStamp X upsURL (Some ov) tr)) = Some ov' \<longrightarrow> ServerIPAddrs ov' = [ip])
     \<and> (\<forall>c uu po r. EvConstruct c uu po r \<in> set (snd (snd (parseStamp X upsURL (Some ov) tr))) - set tr
            \<longrightarrow> po = Some (ov\<lparr>ServerIPAddrs := [ip]\<rparr>))"
  using assms
  by (auto simp: parseStamp_def Let_def call_constructor_def
           split: StampProtoType.splits prod.splits sum.splits)

text \<open>
  A DNS-over-HTTPS stamp with the server address 1.1.1.1, parsed with options that held
  9.9.9.9: only 1.1.1.1 is left.
\<close>

theorem parseStamp_replaces_ServerIPAddrs_witness:
  "fst (snd (parseStamp sample_extern
       \<lparr>Scheme = ''sdns'', Host = ''AgAAAAAAAAAABzEuMS4xLjEAC2Rucy5leGFtcGxlCi9kbnMtcXVlcnk'', Path = '''', Rest = ''''\<rparr>
       (Some (zero_Options\<lparr>ServerIPAddrs := [[9, 9, 9, 9]]\<rparr>)) [])) =
     Some (zero_Options\<lparr>ServerIPAddrs := [[1, 1, 1, 1]]\<rparr>)"
proof -
  let ?u = "\<lparr>Scheme = ''sdns'', Host = ''AgAAAAAAAAAABzEuMS4xLjEAC2Rucy5leGFtcGxlCi9kbnMtcXVlcnk'', Path = '''', Rest = ''''\<rparr>"
  let ?stamp = "\<lparr>ServerAddrStr = ''1.1.1.1:443'', ProviderName = ''dns.example'',
          StampPath = ''/dns-query'', Proto = StampProtoTypeDoH\<rparr>"
  have 1: "NewServerStampFromString sample_extern (url_String sample_extern ?u) = Inr ?stamp"
    by (simp add: sample_stamp_url sample_stamp_decoded)
  have 2: "ServerAddrStr ?stamp \<noteq> ''''" by simp
  have 3: "net_ParseIP sample_extern
             (case netutil_SplitHostPort (ServerAddrStr ?stamp) of
                Inl sErr \<Rightarrow> ServerAddrStr ?stamp | Inr (h, p) \<Rightarrow> h) = Some [1, 1, 1, 1]"
    by (simp add: split_1111 sample_ParseIP_1111)
  from parseStamp_replaces_ServerIPAddrs
         [OF 1 2 3, of "zero_Options\<lparr>ServerIPAddrs := [[9, 9, 9, 9]]\<rparr>" "[]"]
  show ?thesis by simp
qed

section \<open>Properties of the bootstrap resolver chain\<close>

lemma upstream_backed_append:
  "upstream_backed (xs @ ys) = upstream_backed xs @ upstream_backed ys"
  by (induction xs rule: upstream_backed.induct) auto

lemma closeBoots_loop_spec:
  "\<exists>cevs. closeBoots_loop X cbs errs tr = (errs @ concat (map close_err_of cevs), tr @ cevs)
        \<and> length cevs = length cbs
        \<and> (\<forall>k<length cbs. cevs ! k = EvClose (cbs ! k) (Close X (tr @ take k cevs) (cbs ! k)))"
proof (induction cbs arbitrary: errs tr)
  case Nil
  show ?case by simp
next
  case (Cons cb cbs)
  let ?e = "Close X tr cb"
  let ?ev = "EvClose cb ?e"
  from Cons.IH [of "errs @ [?e]" "tr @ [?ev]"]
  obtain cevs where run: "closeBoots_loop X cbs (errs @ [?e]) (tr @ [?ev]) =
        ((errs @ [?e]) @ concat (map close_err_of cevs), (tr @ [?ev]) @ cevs)"
    and len: "length cevs = length cbs"
    and each: "\<forall>k<length cbs. cevs ! k = EvClose (cbs ! k) (Close X ((tr @ [?ev]) @ take k cevs) (cbs ! k))"
    by blast
  have 1: "closeBoots_loop X (cb # cbs) errs tr =
        (errs @ concat (map close_err_of (?ev # cevs)), tr @ (?ev # cevs))"
    using run by (simp add: Let_def)
  have 2: "length (?ev # cevs) = length (cb # cbs)" using len by simp
  have 3: "\<forall>k<length (cb # cbs).
        (?ev # cevs) ! k = EvClose ((cb # cbs) ! k) (Close X (tr @ take k (?ev # cevs)) ((cb # cbs) ! k))"
  proof (intro allI impI)
    fix k assume k: "k < length (cb # cbs)"
    show "(?ev # cevs) ! k = EvClose ((cb # cbs) ! k) (Close X (tr @ take k (?ev # cevs)) ((cb # cbs) ! k))"
    proof (cases k)
      case 0
      then show ?thesis by simp
    next
      case (Suc j)
      with k have "j < length cbs" by simp
      with each have "cevs ! j = EvClose (cbs ! j) (Close X ((tr @ [?ev]) @ take j cevs) (cbs ! j))"
        by blast
      with Suc show ?thesis by simp
    qed
  qed
  from 1 2 3 show ?case by blast
qed

lemma newResolvers_loop_ok:
  fixes X :: "('u, 'r, 'h) extern"
  shows "newResolvers_loop X opts i bs rs cbs tr = (rs', cbs', None, tr') \<Longrightarrow>
     \<exists>chain evs. rs' = rs @ chain \<and> cbs' = cbs @ upstream_backed chain \<and> tr' = tr @ evs
        \<and> length chain = length bs
        \<and> (\<forall>j<length bs. bs ! j = '''' \<longrightarrow> chain ! j = SystemResolver)
        \<and> (\<forall>j<length bs. bs ! j \<noteq> '''' \<longrightarrow>
              (\<exists>r pre. chain ! j = UpstreamResolver r
                    \<and> NewUpstreamResolver X (tr @ pre) (bs ! j) opts = Inr r))
        \<and> concat (map asked_of evs) = filter (\<lambda>b. b \<noteq> '''') bs
        \<and> concat (map built_of evs) = upstream_backed chain"
proof (induction bs arbitrary: i rs cbs tr)
  case Nil
  then show ?case by simp
next
  case (Cons boot bs)
  show ?case
  proof (cases "boot = ''''")
    case True
    with Cons.prems have "newResolvers_loop X opts (Suc i) bs (rs @ [SystemResolver]) cbs tr = (rs', cbs', None, tr')"
      by simp
    from Cons.IH [OF this] obtain chain evs where
      a: "rs' = (rs @ [SystemResolver]) @ chain" "cbs' = cbs @ upstream_backed chain" "tr' = tr @ evs"
         "length chain = length bs"
      and b: "\<forall>j<length bs. bs ! j = '''' \<longrightarrow> chain ! j = SystemResolver"
      and c: "\<forall>j<length bs. bs ! j \<noteq> '''' \<longrightarrow>
              (\<exists>r pre. chain ! j = UpstreamResolver r
                    \<and> NewUpstreamResolver X (tr @ pre) (bs ! j) opts = Inr r)"
      and d: "concat (map asked_of evs) = filter (\<lambda>b. b \<noteq> '''') bs"
         "concat (map built_of evs) = upstream_backed chain"
      by blast
    let ?chain = "SystemResolver # chain"
    have 1: "rs' = rs @ ?chain" "cbs' = cbs @ upstream_backed ?chain" "length ?chain = length (boot # bs)"
      using a by simp_all
    have 2: "\<forall>j<length (boot # bs). (boot # bs) ! j = '''' \<longrightarrow> ?chain ! j = SystemResolver"
      using b by (auto simp: nth_Cons split: nat.splits)
    have 3: "\<forall>j<length (boot # bs). (boot # bs) ! j \<noteq> '''' \<longrightarrow>
              (\<exists>r pre. ?chain ! j = UpstreamResolver r
                    \<and> NewUpstreamResolver X (tr @ pre) ((boot # bs) ! j) opts = Inr r)"
      using c True by (auto simp: nth_Cons split: nat.splits)
    have 4: "concat (map asked_of evs) = filter (\<lambda>b. b \<noteq> '''') (boot # bs)"
        "concat (map built_of evs) = upstream_backed ?chain"
      using d True by simp_all
    from 1 2 3 4 a(3) show ?thesis by blast
  next
    case False
    show ?thesis
    proof (cases "NewUpstreamResolver X tr boot opts")
      case (Inl rErr)
      with False Cons.prems show ?thesis by simp
    next
      case (Inr r)
      let ?ev = "EvNewUpstreamResolver boot opts (Inr r) :: ('u, 'r, 'h) event"
      from Inr False Cons.prems
      have "newResolvers_loop X opts (Suc i) bs (rs @ [UpstreamResolver r]) (cbs @ [r]) (tr @ [?ev])
              = (rs', cbs', None, tr')"
        by simp
      from Cons.IH [OF this] obtain chain evs where
        a: "rs' = (rs @ [UpstreamResolver r]) @ chain" "cbs' = (cbs @ [r]) @ upstream_backed chain"
           "tr' = (tr @ [?ev]) @ evs" "length chain = length bs"
        and b: "\<forall>j<length bs. bs ! j = '''' \<longrightarrow> chain ! j = SystemResolver"
        and c: "\<forall>j<length bs. bs ! j \<noteq> '''' \<longrightarrow>
              (\<exists>r' pre. chain ! j = UpstreamResolver r'
                    \<and> NewUpstreamResolver X ((tr @ [?ev]) @ pre) (bs ! j) opts = Inr r')"
        and d: "concat (map asked_of evs) = filter (\<lambda>b. b \<noteq> '''') bs"
           "concat (map built_of evs) = upstream_backed chain"
        by blast
      let ?chain = "UpstreamResolver r # chain"
      let ?evs = "?ev # evs"
      have 1: "rs' = rs @ ?chain" "cbs' = cbs @ upstream_backed ?chain" "tr' = tr @ ?evs"
          "length ?chain = length (boot # bs)"
        using a by simp_all
      have 2: "\<forall>j<length (boot # bs). (boot # bs) ! j = '''' \<longrightarrow> ?chain ! j = SystemResolver"
        using b False by (auto simp: nth_Cons split: nat.splits)
      have 3: "\<forall>j<length (boot # bs). (boot # bs) ! j \<noteq> '''' \<longrightarrow>
              (\<exists>r' pre. ?chain ! j = UpstreamResolver r'
                    \<and> NewUpstreamResolver X (tr @ pre) ((boot # bs) ! j) opts = Inr r')"
      proof (intro allI impI)
        fix j assume j: "j < length (boot # bs)" and ne: "(boot # bs) ! j \<noteq> ''''"
        show "\<exists>r' pre. ?chain ! j = UpstreamResolver r'
                    \<and> NewUpstreamResolver X (tr @ pre) ((boot # bs) ! j) opts = Inr r'"
        proof (cases j)
          case 0
          have "?chain ! 0 = UpstreamResolver r \<and> NewUpstreamResolver X (tr @ []) boot opts = Inr r"
            using Inr by simp
          with 0 show ?thesis by (metis nth_Cons_0)
        next
          case (Suc j')
          with j ne have "j' < length bs" "bs ! j' \<noteq> ''''" by simp_all
          with c obtain r' pre where "chain ! j' = UpstreamResolver r'"
              "NewUpstreamResolver X ((tr @ [?ev]) @ pre) (bs ! j') opts = Inr r'"
            by blast
          then have "?chain ! j = UpstreamResolver r'
              \<and> NewUpstreamResolver X (tr @ (?ev # pre)) ((boot # bs) ! j) opts = Inr r'"
            using Suc by simp
          then show ?thesis by blast
        qed
      qed
      have 4: "concat (map asked_of ?evs) = filter (\<lambda>b. b \<noteq> '''') (boot # bs)"
          "concat (map built_of ?evs) = upstream_backed ?chain"
        using d False by simp_all
      from 1 2 3 4 show ?thesis by blast
    qed
  qed
qed

lemma errors_Join_None: "errors_Join errs = None \<longleftrightarrow> (\<forall>e. Some e \<notin> set errs)"
proof -
  have "concat (map (\<lambda>e. case e of None \<Rightarrow> [] | Some x \<Rightarrow> [x]) errs) = [] \<longleftrightarrow> (\<forall>e. Some e \<notin> set errs)"
    by (induction errs) (auto split: option.splits)
  then show ?thesis by (simp add: errors_Join_def Let_def)
qed

lemma errors_Join_Some:
  "Some e \<in> set errs \<Longrightarrow> \<exists>es. errors_Join errs = Some (Joined es) \<and> e \<in> set es"
proof -
  assume m: "Some e \<in> set errs"
  let ?es = "concat (map (\<lambda>e. case e of None \<Rightarrow> [] | Some x \<Rightarrow> [x]) errs)"
  from m have in_es: "e \<in> set ?es" by (induction errs) (auto split: option.splits)
  then have "?es \<noteq> []" by (cases ?es) simp_all
  then have "errors_Join errs = Some (Joined ?es)" by (simp add: errors_Join_def Let_def)
  with in_es show ?thesis by blast
qed

lemma errors_Join_pair:
  "errors_Join [Some a, x] = Some (Joined (a # (case x of None \<Rightarrow> [] | Some j \<Rightarrow> [j])))"
  by (cases x) (simp_all add: errors_Join_def)

lemma split_853: "netutil_SplitHostPort ''dns.example:853'' = Inr (''dns.example'', 853)"
  by (simp add: netutil_SplitHostPort_def split_defs port_defs)

lemma split_bad_port:
  "netutil_SplitHostPort ''dns.example:99999'' =
     Inl (ParsingPort (NumError ''ParseUint'' ''99999'' ErrRange))"
  by (simp add: netutil_SplitHostPort_def split_defs port_defs)

lemma sample_newResolvers:
  "newResolvers sample_extern sample_Options [] =
     ([UpstreamResolver 0, SystemResolver, UpstreamResolver 1], closeBootsFunc [0, 1], None,
      [EvNewUpstreamResolver ''8.8.8.8:53'' sample_Options (Inr 0),
       EvNewUpstreamResolver ''9.9.9.9:53'' sample_Options (Inr 1)])"
proof -
  have b: "Bootstrap sample_Options = [''8.8.8.8:53'', '''', ''9.9.9.9:53'']"
    by (simp add: sample_Options_def)
  have n: "\<And>tr boot. NewUpstreamResolver sample_extern tr boot sample_Options =
       (if boot = ''bad'' then Inl (ErrExternal ''creating upstream'') else Inr (length tr))"
    by (simp add: sample_extern_def)
  show ?thesis by (simp add: newResolvers_def b n)
qed

lemma sample_close:
  "call_closeFunc sample_extern (closeBootsFunc [0, 1]) [] =
     (Some (Joined [ErrExternal ''closing'']),
      [EvClose 0 (Some (ErrExternal ''closing'')), EvClose 1 None])"
proof -
  have c: "\<And>tr r. Close sample_extern tr r = (if r = 0 then Some (ErrExternal ''closing'') else None)"
    by (simp add: sample_extern_def)
  show ?thesis by (simp add: c errors_Join_def Let_def)
qed

lemma builds_built_length:
  fixes X :: "('u, 'r, 'h) extern"
  shows "builds X opts tr boots bevs \<Longrightarrow>
     length bevs = length boots \<and> length (concat (map built_of bevs)) = length boots"
proof (induction boots arbitrary: tr bevs)
  case Nil
  then show ?case by simp
next
  case (Cons boot boots)
  then show ?case
    by (cases bevs) (auto split: sum.splits)
qed

lemma newResolvers_loop_builds:
  fixes X :: "('u, 'r, 'h) extern"
  shows "builds X opts tr (filter (\<lambda>b. b \<noteq> '''') bs) bevs \<Longrightarrow>
     \<exists>rs' cbs'. newResolvers_loop X opts i bs rs cbs tr = (rs', cbs', None, tr @ bevs)"
proof (induction bs arbitrary: i rs cbs tr bevs)
  case Nil
  then show ?case by simp
next
  case (Cons boot bs)
  show ?case
  proof (cases "boot = ''''")
    case True
    with Cons.prems have "builds X opts tr (filter (\<lambda>b. b \<noteq> '''') bs) bevs" by simp
    from Cons.IH [OF this, of "Suc i" "rs @ [SystemResolver]" cbs] True show ?thesis by simp
  next
    case False
    with Cons.prems have b: "builds X opts tr (boot # filter (\<lambda>b. b \<noteq> '''') bs) bevs" by simp
    then obtain ev rest where bevs: "bevs = ev # rest" by (cases bevs) auto
    with b obtain r where r: "NewUpstreamResolver X tr boot opts = Inr r"
      and ev: "ev = EvNewUpstreamResolver boot opts (Inr r)"
      and rest: "builds X opts (tr @ [ev]) (filter (\<lambda>b. b \<noteq> '''') bs) rest"
      by (auto split: sum.splits)
    from Cons.IH [OF rest, of "Suc i" "rs @ [UpstreamResolver r]" "cbs @ [r]"]
    show ?thesis using False r ev bevs by simp
  qed
qed

lemma newResolvers_loop_first_failure:
  fixes X :: "('u, 'r, 'h) extern"
  assumes "i < length bs" and "bs ! i \<noteq> ''''"
    and "builds X opts tr (filter (\<lambda>b. b \<noteq> '''') (take i bs)) bevs"
    and "NewUpstreamResolver X (tr @ bevs) (bs ! i) opts = Inl cause"
  shows "newResolvers_loop X opts i0 bs rs cbs tr =
     ([], cbs @ concat (map built_of bevs), Some (PreparingBootstrapResolver (i0 + i) cause),
      tr @ bevs @ [EvNewUpstreamResolver (bs ! i) opts (Inl cause)])"
  using assms
proof (induction bs arbitrary: i i0 rs cbs tr bevs)
  case Nil
  then show ?case by simp
next
  case (Cons boot bs)
  show ?case
  proof (cases i)
    case 0
    with Cons.prems show ?thesis by simp
  next
    case (Suc i')
    with Cons.prems have i': "i' < length bs" "bs ! i' \<noteq> ''''" by simp_all
    show ?thesis
    proof (cases "boot = ''''")
      case True
      with Cons.prems Suc
      have "builds X opts tr (filter (\<lambda>b. b \<noteq> '''') (take i' bs)) bevs"
        and "NewUpstreamResolver X (tr @ bevs) (bs ! i') opts = Inl cause"
        by simp_all
      from Cons.IH [OF i' this, of "Suc i0" "rs @ [SystemResolver]" cbs]
      show ?thesis using True Suc by simp
    next
      case False
      with Cons.prems Suc
      have b: "builds X opts tr (boot # filter (\<lambda>b. b \<noteq> '''') (take i' bs)) bevs" by simp
      then obtain ev rest where bevs: "bevs = ev # rest" by (cases bevs) auto
      with b obtain r where r: "NewUpstreamResolver X tr boot opts = Inr r"
        and ev: "ev = EvNewUpstreamResolver boot opts (Inr r)"
        and rest: "builds X opts (tr @ [ev]) (filter (\<lambda>b. b \<noteq> '''') (take i' bs)) rest"
        by (auto split: sum.splits)
      from Cons.prems(4) Suc bevs
      have f: "NewUpstreamResolver X ((tr @ [ev]) @ rest) (bs ! i') opts = Inl cause" by simp
      from Cons.IH [OF i' rest f, of "Suc i0" "rs @ [UpstreamResolver r]" "cbs @ [r]"]
      show ?thesis using False r ev bevs Suc by simp
    qed
  qed
qed

lemma newResolvers_loop_ok_builds:
  fixes X :: "('u, 'r, 'h) extern"
  shows "newResolvers_loop X opts i bs rs cbs tr = (rs', cbs', None, tr') \<Longrightarrow>
     \<exists>bevs. tr' = tr @ bevs \<and> builds X opts tr (filter (\<lambda>b. b \<noteq> '''') bs) bevs"
proof (induction bs arbitrary: i rs cbs tr)
  case Nil
  then show ?case by simp
next
  case (Cons boot bs)
  show ?case
  proof (cases "boot = ''''")
    case True
    with Cons.prems
    have "newResolvers_loop X opts (Suc i) bs (rs @ [SystemResolver]) cbs tr = (rs', cbs', None, tr')"
      by simp
    from Cons.IH [OF this] True show ?thesis by simp
  next
    case False
    show ?thesis
    proof (cases "NewUpstreamResolver X tr boot opts")
      case (Inl rErr)
      with False Cons.prems show ?thesis by simp
    next
      case (Inr r)
      let ?ev = "EvNewUpstreamResolver boot opts (Inr r) :: ('u, 'r, 'h) event"
      from Inr False Cons.prems
      have "newResolvers_loop X opts (Suc i) bs (rs @ [UpstreamResolver r]) (cbs @ [r]) (tr @ [?ev])
              = (rs', cbs', None, tr')"
        by simp
      from Cons.IH [OF this] obtain bevs where
        "tr' = (tr @ [?ev]) @ bevs" "builds X opts (tr @ [?ev]) (filter (\<lambda>b. b \<noteq> '''') bs) bevs"
        by blast
      then have "tr' = tr @ (?ev # bevs)
          \<and> builds X opts tr (filter (\<lambda>b. b \<noteq> '''') (boot # bs)) (?ev # bevs)"
        using False Inr by simp
      then show ?thesis by blast
    qed
  qed
qed

lemma newResolvers_loop_error_builds:
  fixes X :: "('u, 'r, 'h) extern"
  shows "newResolvers_loop X opts i0 bs rs cbs tr = (rs', cbs', Some e, tr') \<Longrightarrow>
     \<exists>i cause bevs. i < length bs \<and> bs ! i \<noteq> ''''
        \<and> builds X opts tr (filter (\<lambda>b. b \<noteq> '''') (take i bs)) bevs
        \<and> NewUpstreamResolver X (tr @ bevs) (bs ! i) opts = Inl cause"
proof (induction bs arbitrary: i0 rs cbs tr)
  case Nil
  then show ?case by simp
next
  case (Cons boot bs)
  show ?case
  proof (cases "boot = ''''")
    case True
    with Cons.prems
    have "newResolvers_loop X opts (Suc i0) bs (rs @ [SystemResolver]) cbs tr = (rs', cbs', Some e, tr')"
      by simp
    from Cons.IH [OF this] obtain i cause bevs where
      "i < length bs" "bs ! i \<noteq> ''''"
      "builds X opts tr (filter (\<lambda>b. b \<noteq> '''') (take i bs)) bevs"
      "NewUpstreamResolver X (tr @ bevs) (bs ! i) opts = Inl cause"
      by blast
    then have "Suc i < length (boot # bs) \<and> (boot # bs) ! Suc i \<noteq> ''''
        \<and> builds X opts tr (filter (\<lambda>b. b \<noteq> '''') (take (Suc i) (boot # bs))) bevs
        \<and> NewUpstreamResolver X (tr @ bevs) ((boot # bs) ! Suc i) opts = Inl cause"
      using True by simp
    then show ?thesis by blast
  next
    case False
    show ?thesis
    proof (cases "NewUpstreamResolver X tr boot opts")
      case (Inl rErr)
      then have "0 < length (boot # bs) \<and> (boot # bs) ! 0 \<noteq> ''''
        \<and> builds X opts tr (filter (\<lambda>b. b \<noteq> '''') (take 0 (boot # bs))) []
        \<and> NewUpstreamResolver X (tr @ []) ((boot # bs) ! 0) opts = Inl rErr"
        using False by simp
      then show ?thesis by blast
    next
      case (Inr r)
      let ?ev = "EvNewUpstreamResolver boot opts (Inr r) :: ('u, 'r, 'h) event"
      from Inr False Cons.prems
      have "newResolvers_loop X opts (Suc i0) bs (rs @ [UpstreamResolver r]) (cbs @ [r]) (tr @ [?ev])
              = (rs', cbs', Some e, tr')"
        by simp
      from Cons.IH [OF this] obtain i cause bevs where
        "i < length bs" "bs ! i \<noteq> ''''"
        "builds X opts (tr @ [?ev]) (filter (\<lambda>b. b \<noteq> '''') (take i bs)) bevs"
        "NewUpstreamResolver X ((tr @ [?ev]) @ bevs) (bs ! i) opts = Inl cause"
        by blast
      then have "Suc i < length (boot # bs) \<and> (boot # bs) ! Suc i \<noteq> ''''
        \<and> builds X opts tr (filter (\<lambda>b. b \<noteq> '''') (take (Suc i) (boot # bs))) (?ev # bevs)
        \<and> NewUpstreamResolver X (tr @ (?ev # bevs)) ((boot # bs) ! Suc i) opts = Inl cause"
        using False Inr by simp
      then show ?thesis by blast
    qed
  qed
qed

lemma chain_position:
  "length chain = length bs \<Longrightarrow>
   \<forall>j<length bs. (bs ! j = '''' \<longrightarrow> chain ! j = SystemResolver)
                  \<and> (bs ! j \<noteq> '''' \<longrightarrow> (\<exists>r. chain ! j = UpstreamResolver r)) \<Longrightarrow>
   j < length bs \<Longrightarrow> bs ! j \<noteq> '''' \<Longrightarrow>
   chain ! j = UpstreamResolver (upstream_backed chain ! length (filter (\<lambda>b. b \<noteq> '''') (take j bs)))"
proof (induction bs arbitrary: chain j)
  case Nil
  then show ?case by simp
next
  case (Cons boot bs)
  from Cons.prems(1) obtain c chain' where chain: "chain = c # chain'" "length chain' = length bs"
    by (cases chain) auto
  have tail: "\<forall>j<length bs. (bs ! j = '''' \<longrightarrow> chain' ! j = SystemResolver)
                  \<and> (bs ! j \<noteq> '''' \<longrightarrow> (\<exists>r. chain' ! j = UpstreamResolver r))"
  proof (intro allI impI)
    fix k assume "k < length bs"
    then have "Suc k < length (boot # bs)" by simp
    with Cons.prems(2) have "((boot # bs) ! Suc k = '''' \<longrightarrow> chain ! Suc k = SystemResolver)
                  \<and> ((boot # bs) ! Suc k \<noteq> '''' \<longrightarrow> (\<exists>r. chain ! Suc k = UpstreamResolver r))"
      by blast
    then show "(bs ! k = '''' \<longrightarrow> chain' ! k = SystemResolver)
                  \<and> (bs ! k \<noteq> '''' \<longrightarrow> (\<exists>r. chain' ! k = UpstreamResolver r))"
      using chain by simp
  qed
  have head: "(boot = '''' \<longrightarrow> c = SystemResolver) \<and> (boot \<noteq> '''' \<longrightarrow> (\<exists>r. c = UpstreamResolver r))"
    using Cons.prems(2) chain by (auto dest: spec [of _ 0])
  show ?case
  proof (cases j)
    case 0
    with Cons.prems(4) head chain show ?thesis by auto
  next
    case (Suc j')
    with Cons.prems have j': "j' < length bs" "bs ! j' \<noteq> ''''" by simp_all
    from Cons.IH [OF chain(2) tail j']
    have ih: "chain' ! j' = UpstreamResolver (upstream_backed chain' ! length (filter (\<lambda>b. b \<noteq> '''') (take j' bs)))" .
    show ?thesis
    proof (cases "boot = ''''")
      case True
      with head have "c = SystemResolver" by simp
      with ih True Suc chain show ?thesis by simp
    next
      case False
      with head obtain r where "c = UpstreamResolver r" by blast
      with ih False Suc chain show ?thesis by simp
    qed
  qed
qed

lemma sample_NewUpstreamResolver:
  "NewUpstreamResolver sample_extern tr boot opts =
     (if boot = ''bad'' then Inl (ErrExternal ''creating upstream'') else Inr (length tr))"
  by (simp add: sample_extern_def)

lemma list_of_length_3:
  "length xs = 3 \<Longrightarrow> xs = [xs ! 0, xs ! 1, xs ! 2]"
  by (auto simp add: length_Suc_conv numeral_3_eq_3)

lemma list_of_length_1:
  "length xs = 1 \<Longrightarrow> xs = [xs ! 0]"
  by (auto simp add: length_Suc_conv)

text \<open>
  Claim C8.  For an empty bootstrap list \<^verbatim>\<open>newResolvers\<close> returns the chain of the one
  system-default resolver and no error, and calls nothing outside.  For a list that is
  not empty, when the constructions for its entries that are not empty succeed one after
  the other (\<open>builds\<close>), \<^verbatim>\<open>newResolvers\<close> returns no error and a chain with one
  resolver for each entry, at the position of the entry: the system-default resolver for
  an empty string, and for any other entry the resolver that \<^verbatim>\<open>NewUpstreamResolver\<close>
  returned for that entry and these options; the calls made are those constructions, in
  the order of the entries.  Conversely, when \<^verbatim>\<open>newResolvers\<close> returns no error, these
  constructions were made and succeeded.
\<close>

theorem newResolvers_chain_shape:
  fixes X :: "('u, 'r, 'h) extern" and opts :: Options
  defines "bs \<equiv> Bootstrap opts"
  shows
    "(bs = [] \<longrightarrow> newResolvers X opts tr = ([SystemResolver], nopClose, None, tr))
     \<and> (\<forall>bevs. bs \<noteq> [] \<longrightarrow> builds X opts tr (filter (\<lambda>b. b \<noteq> '''') bs) bevs \<longrightarrow>
          (\<exists>resolvers.
              newResolvers X opts tr =
                (resolvers, closeBootsFunc (upstream_backed resolvers), None, tr @ bevs)
            \<and> length resolvers = length bs
            \<and> upstream_backed resolvers = concat (map built_of bevs)
            \<and> (\<forall>j<length bs.
                  (bs ! j = '''' \<longrightarrow> resolvers ! j = SystemResolver)
                  \<and> (bs ! j \<noteq> '''' \<longrightarrow>
                       resolvers ! j =
                         UpstreamResolver
                           (concat (map built_of bevs) ! length (filter (\<lambda>b. b \<noteq> '''') (take j bs)))
                       \<and> (\<exists>r pre. resolvers ! j = UpstreamResolver r
                             \<and> NewUpstreamResolver X (tr @ pre) (bs ! j) opts = Inr r)))))
     \<and> (\<forall>resolvers closeBoot tr'.
          newResolvers X opts tr = (resolvers, closeBoot, None, tr') \<longrightarrow>
          (\<exists>bevs. tr' = tr @ bevs \<and> builds X opts tr (filter (\<lambda>b. b \<noteq> '''') bs) bevs))"
proof -
  have A: "bs = [] \<longrightarrow> newResolvers X opts tr = ([SystemResolver], nopClose, None, tr)"
    by (simp add: newResolvers_def bs_def)
  have B: "\<forall>bevs. bs \<noteq> [] \<longrightarrow> builds X opts tr (filter (\<lambda>b. b \<noteq> '''') bs) bevs \<longrightarrow>
          (\<exists>resolvers.
              newResolvers X opts tr =
                (resolvers, closeBootsFunc (upstream_backed resolvers), None, tr @ bevs)
            \<and> length resolvers = length bs
            \<and> upstream_backed resolvers = concat (map built_of bevs)
            \<and> (\<forall>j<length bs.
                  (bs ! j = '''' \<longrightarrow> resolvers ! j = SystemResolver)
                  \<and> (bs ! j \<noteq> '''' \<longrightarrow>
                       resolvers ! j =
                         UpstreamResolver
                           (concat (map built_of bevs) ! length (filter (\<lambda>b. b \<noteq> '''') (take j bs)))
                       \<and> (\<exists>r pre. resolvers ! j = UpstreamResolver r
                             \<and> NewUpstreamResolver X (tr @ pre) (bs ! j) opts = Inr r))))"
  proof (intro allI impI)
    fix bevs
    assume ne: "bs \<noteq> []" and b: "builds X opts tr (filter (\<lambda>b. b \<noteq> '''') bs) bevs"
    from newResolvers_loop_builds [OF b, of 0 "[]" "[]"] obtain rs' cbs' where
      loop: "newResolvers_loop X opts 0 bs [] [] tr = (rs', cbs', None, tr @ bevs)"
      by blast
    from newResolvers_loop_ok [OF loop] obtain chain evs where
      c: "rs' = [] @ chain" "cbs' = [] @ upstream_backed chain" "tr @ bevs = tr @ evs"
         "length chain = length bs"
      and sys: "\<forall>j<length bs. bs ! j = '''' \<longrightarrow> chain ! j = SystemResolver"
      and ups: "\<forall>j<length bs. bs ! j \<noteq> '''' \<longrightarrow>
              (\<exists>r pre. chain ! j = UpstreamResolver r
                    \<and> NewUpstreamResolver X (tr @ pre) (bs ! j) opts = Inr r)"
      and blt: "concat (map built_of evs) = upstream_backed chain"
      by blast
    from c(3) have evs: "evs = bevs" by simp
    have 1: "newResolvers X opts tr =
                (chain, closeBootsFunc (upstream_backed chain), None, tr @ bevs)"
      using loop c(1,2) ne by (simp add: newResolvers_def bs_def)
    have 2: "upstream_backed chain = concat (map built_of bevs)" using blt evs by simp
    have both: "\<forall>j<length bs. (bs ! j = '''' \<longrightarrow> chain ! j = SystemResolver)
                  \<and> (bs ! j \<noteq> '''' \<longrightarrow> (\<exists>r. chain ! j = UpstreamResolver r))"
      using sys ups by blast
    have 3: "\<forall>j<length bs.
                  (bs ! j = '''' \<longrightarrow> chain ! j = SystemResolver)
                  \<and> (bs ! j \<noteq> '''' \<longrightarrow>
                       chain ! j =
                         UpstreamResolver
                           (concat (map built_of bevs) ! length (filter (\<lambda>b. b \<noteq> '''') (take j bs)))
                       \<and> (\<exists>r pre. chain ! j = UpstreamResolver r
                             \<and> NewUpstreamResolver X (tr @ pre) (bs ! j) opts = Inr r))"
    proof (intro allI impI conjI)
      fix j assume "j < length bs" "bs ! j = ''''"
      with sys show "chain ! j = SystemResolver" by blast
    next
      fix j assume j: "j < length bs" "bs ! j \<noteq> ''''"
      from chain_position [OF c(4) both j] 2
      show "chain ! j = UpstreamResolver
                 (concat (map built_of bevs) ! length (filter (\<lambda>b. b \<noteq> '''') (take j bs)))"
        by simp
    next
      fix j assume "j < length bs" "bs ! j \<noteq> ''''"
      with ups show "\<exists>r pre. chain ! j = UpstreamResolver r
                             \<and> NewUpstreamResolver X (tr @ pre) (bs ! j) opts = Inr r"
        by blast
    qed
    from 1 c(4) 2 3
    show "\<exists>resolvers.
              newResolvers X opts tr =
                (resolvers, closeBootsFunc (upstream_backed resolvers), None, tr @ bevs)
            \<and> length resolvers = length bs
            \<and> upstream_backed resolvers = concat (map built_of bevs)
            \<and> (\<forall>j<length bs.
                  (bs ! j = '''' \<longrightarrow> resolvers ! j = SystemResolver)
                  \<and> (bs ! j \<noteq> '''' \<longrightarrow>
                       resolvers ! j =
                         UpstreamResolver
                           (concat (map built_of bevs) ! length (filter (\<lambda>b. b \<noteq> '''') (take j bs)))
                       \<and> (\<exists>r pre. resolvers ! j = UpstreamResolver r
                             \<and> NewUpstreamResolver X (tr @ pre) (bs ! j) opts = Inr r)))"
      by blast
  qed
  have C: "\<forall>resolvers closeBoot tr'.
          newResolvers X opts tr = (resolvers, closeBoot, None, tr') \<longrightarrow>
          (\<exists>bevs. tr' = tr @ bevs \<and> builds X opts tr (filter (\<lambda>b. b \<noteq> '''') bs) bevs)"
  proof (intro allI impI)
    fix resolvers closeBoot tr'
    assume r: "newResolvers X opts tr = (resolvers, closeBoot, None, tr')"
    show "\<exists>bevs. tr' = tr @ bevs \<and> builds X opts tr (filter (\<lambda>b. b \<noteq> '''') bs) bevs"
    proof (cases "bs = []")
      case True
      with r have "tr' = tr @ [] \<and> builds X opts tr (filter (\<lambda>b. b \<noteq> '''') bs) []"
        by (simp add: newResolvers_def bs_def)
      then show ?thesis by blast
    next
      case False
      with r obtain cbs where
        "newResolvers_loop X opts 0 bs [] [] tr = (resolvers, cbs, None, tr')"
        by (auto simp: newResolvers_def bs_def Let_def split: prod.splits)
      from newResolvers_loop_ok_builds [OF this] show ?thesis .
    qed
  qed
  from A B C show ?thesis by blast
qed

text \<open>
  The empty bootstrap list; and three bootstrap entries, the second one empty: two
  resolvers are built, and the system-default resolver stands between them.
\<close>

theorem newResolvers_chain_shape_witness:
  "Bootstrap zero_Options = []
   \<and> newResolvers sample_extern zero_Options [] = ([SystemResolver], nopClose, None, [])
   \<and> Bootstrap sample_Options = [''8.8.8.8:53'', '''', ''9.9.9.9:53'']
   \<and> builds sample_extern sample_Options []
        (filter (\<lambda>b. b \<noteq> '''') (Bootstrap sample_Options))
        [EvNewUpstreamResolver ''8.8.8.8:53'' sample_Options (Inr 0),
         EvNewUpstreamResolver ''9.9.9.9:53'' sample_Options (Inr 1)]
   \<and> newResolvers sample_extern sample_Options [] =
     ([UpstreamResolver 0, SystemResolver, UpstreamResolver 1], closeBootsFunc [0, 1], None,
      [EvNewUpstreamResolver ''8.8.8.8:53'' sample_Options (Inr 0),
       EvNewUpstreamResolver ''9.9.9.9:53'' sample_Options (Inr 1)])"
proof -
  let ?bevs = "[EvNewUpstreamResolver ''8.8.8.8:53'' sample_Options (Inr 0),
                EvNewUpstreamResolver ''9.9.9.9:53'' sample_Options (Inr 1)]
                 :: (string, nat, string list) event list"
  have b: "Bootstrap sample_Options = [''8.8.8.8:53'', '''', ''9.9.9.9:53'']"
    by (simp add: sample_Options_def)
  have z: "Bootstrap zero_Options = []" by (simp add: zero_Options_def)
  have ne: "Bootstrap sample_Options \<noteq> []" by (simp add: b)
  have bl: "builds sample_extern sample_Options []
              (filter (\<lambda>b. b \<noteq> '''') (Bootstrap sample_Options)) ?bevs"
    by (simp add: b sample_NewUpstreamResolver)
  have built: "concat (map built_of ?bevs) = [0, 1]" by simp
  from newResolvers_chain_shape [of zero_Options sample_extern "[]", THEN conjunct1] z
  have 1: "newResolvers sample_extern zero_Options [] = ([SystemResolver], nopClose, None, [])"
    by simp
  from newResolvers_chain_shape
         [of sample_Options sample_extern "[]", THEN conjunct2, THEN conjunct1, rule_format, OF ne bl]
  obtain resolvers where
    r: "newResolvers sample_extern sample_Options [] =
           (resolvers, closeBootsFunc (upstream_backed resolvers), None, [] @ ?bevs)"
    and len: "length resolvers = length (Bootstrap sample_Options)"
    and ub: "upstream_backed resolvers = concat (map built_of ?bevs)"
    and pos: "\<forall>j<length (Bootstrap sample_Options).
                  (Bootstrap sample_Options ! j = '''' \<longrightarrow> resolvers ! j = SystemResolver)
                  \<and> (Bootstrap sample_Options ! j \<noteq> '''' \<longrightarrow>
                       resolvers ! j =
                         UpstreamResolver
                           (concat (map built_of ?bevs) !
                              length (filter (\<lambda>b. b \<noteq> '''') (take j (Bootstrap sample_Options))))
                       \<and> (\<exists>r pre. resolvers ! j = UpstreamResolver r
                             \<and> NewUpstreamResolver sample_extern ([] @ pre)
                                  (Bootstrap sample_Options ! j) sample_Options = Inr r))"
    by (elim exE conjE) (rule that; assumption)
  from pos have "0 < length (Bootstrap sample_Options) \<longrightarrow>
      Bootstrap sample_Options ! 0 \<noteq> '''' \<longrightarrow>
      resolvers ! 0 = UpstreamResolver
                           (concat (map built_of ?bevs) !
                              length (filter (\<lambda>b. b \<noteq> '''') (take 0 (Bootstrap sample_Options))))"
    by blast
  then have p0: "resolvers ! 0 = UpstreamResolver 0"
    by (simp add: b)
  from pos have "1 < length (Bootstrap sample_Options) \<longrightarrow>
      Bootstrap sample_Options ! 1 = '''' \<longrightarrow> resolvers ! 1 = SystemResolver"
    by blast
  then have p1: "resolvers ! 1 = SystemResolver"
    by (simp add: b)
  from pos have "2 < length (Bootstrap sample_Options) \<longrightarrow>
      Bootstrap sample_Options ! 2 \<noteq> '''' \<longrightarrow>
      resolvers ! 2 = UpstreamResolver
                           (concat (map built_of ?bevs) !
                              length (filter (\<lambda>b. b \<noteq> '''') (take 2 (Bootstrap sample_Options))))"
    by blast
  then have p2: "resolvers ! 2 = UpstreamResolver 1"
    by (simp add: b numeral_2_eq_2)
  from len have "length resolvers = 3" by (simp add: b)
  then have "resolvers = [resolvers ! 0, resolvers ! 1, resolvers ! 2]"
    by (rule list_of_length_3)
  also have "\<dots> = [UpstreamResolver 0, SystemResolver, UpstreamResolver 1]"
    by (simp only: p0 p1 p2)
  finally have rs: "resolvers = [UpstreamResolver 0, SystemResolver, UpstreamResolver 1]" .
  from ub have ub': "upstream_backed resolvers = [0, 1]" by simp
  have 2: "newResolvers sample_extern sample_Options [] =
     ([UpstreamResolver 0, SystemResolver, UpstreamResolver 1], closeBootsFunc [0, 1], None, ?bevs)"
    using r unfolding ub' by (simp add: rs)
  show ?thesis
    apply (intro conjI)
        apply (rule z)
       apply (rule 1)
      apply (rule b)
     apply (rule bl)
    apply (rule 2)
    done
qed

text \<open>
  Claim C5.  The close function that \<^verbatim>\<open>newResolvers\<close> returns with a chain it built
  calls \<^verbatim>\<open>Close\<close> on every upstream-backed resolver of the chain, once, in the order
  of the chain, whatever the earlier calls returned; a system-default resolver is not
  closed.  It returns the join of all the errors: nil when no call failed, and otherwise
  one error that holds each of them.
\<close>

theorem closeBoot_closes_all:
  fixes X :: "('u, 'r, 'h) extern"
  assumes "newResolvers X opts tr = (resolvers, closeBoot, None, tr1)"
  shows "\<exists>cevs. call_closeFunc X closeBoot tr2 = (errors_Join (concat (map close_err_of cevs)), tr2 @ cevs)
          \<and> length cevs = length (upstream_backed resolvers)
          \<and> (\<forall>k<length cevs.
                cevs ! k = EvClose (upstream_backed resolvers ! k)
                             (Close X (tr2 @ take k cevs) (upstream_backed resolvers ! k)))
          \<and> (\<forall>e. Some e \<in> set (concat (map close_err_of cevs)) \<longrightarrow>
                (\<exists>es. fst (call_closeFunc X closeBoot tr2) = Some (Joined es) \<and> e \<in> set es))"
proof -
  have "\<exists>cbs. closeBoot = closeBootsFunc cbs \<and> cbs = upstream_backed resolvers
        \<or> closeBoot = nopClose \<and> upstream_backed resolvers = []"
  proof (cases "Bootstrap opts = []")
    case True
    with assms show ?thesis by (auto simp: newResolvers_def)
  next
    case False
    with assms obtain cbs where l:
      "newResolvers_loop X opts 0 (Bootstrap opts) [] [] tr = (resolvers, cbs, None, tr1)"
      and cb: "closeBoot = closeBootsFunc cbs"
      by (auto simp: newResolvers_def Let_def split: prod.splits)
    from newResolvers_loop_ok [OF l] have "cbs = upstream_backed resolvers" by auto
    with cb show ?thesis by simp
  qed
  then show ?thesis
  proof (elim disjE exE conjE)
    fix cbs assume cb: "closeBoot = closeBootsFunc cbs" and u: "cbs = upstream_backed resolvers"
    from closeBoots_loop_spec [of X cbs "[]" tr2] obtain cevs where
      a: "closeBoots_loop X cbs [] tr2 = ([] @ concat (map close_err_of cevs), tr2 @ cevs)"
         "length cevs = length cbs"
         "\<forall>k<length cbs. cevs ! k = EvClose (cbs ! k) (Close X (tr2 @ take k cevs) (cbs ! k))"
      by blast
    have 1: "call_closeFunc X closeBoot tr2 = (errors_Join (concat (map close_err_of cevs)), tr2 @ cevs)"
      using a(1) cb by simp
    have 2: "\<forall>e. Some e \<in> set (concat (map close_err_of cevs)) \<longrightarrow>
                (\<exists>es. fst (call_closeFunc X closeBoot tr2) = Some (Joined es) \<and> e \<in> set es)"
      using 1 errors_Join_Some by (metis fst_conv)
    from 1 2 a(2,3) u show ?thesis by auto
  next
    assume cb: "closeBoot = nopClose" and u: "upstream_backed resolvers = []"
    have "call_closeFunc X closeBoot tr2 = (errors_Join (concat (map close_err_of [])), tr2 @ [])"
      using cb by (simp add: errors_Join_def)
    with u show ?thesis by (intro exI [of _ "[]"]) simp
  qed
qed

text \<open>
  The first resolver of the sample chain fails to close: the second one is closed all
  the same, and the error is returned.
\<close>

theorem closeBoot_closes_all_witness:
  "call_closeFunc sample_extern (closeBootsFunc [0, 1]) [] =
     (Some (Joined [ErrExternal ''closing'']),
      [EvClose 0 (Some (ErrExternal ''closing'')), EvClose 1 None])
   \<and> (\<exists>cevs. call_closeFunc sample_extern (closeBootsFunc [0, 1]) [] =
          (errors_Join (concat (map close_err_of cevs)), [] @ cevs)
        \<and> length cevs = length (upstream_backed [UpstreamResolver (0::nat), SystemResolver, UpstreamResolver 1]))"
  using closeBoot_closes_all [OF sample_newResolvers, of "[]"] sample_close
  by auto

text \<open>
  Claim C3.  The URL's host splits, and neither an explicit address nor a literal host
  avoids the bootstrap chain.  When the construction for the entry at index \<open>i\<close> is the
  first to fail (the entries before \<open>i\<close> that are not empty were built one after the
  other, and \<^verbatim>\<open>NewUpstreamResolver\<close> fails for entry \<open>i\<close>), then
  \<^verbatim>\<open>newDialerInitializer\<close> returns no initializer; the calls it made are the
  constructions before \<open>i\<close>, the failed one, and then the close of every resolver
  built, in order, so that no later entry is asked for; and the error is the join of the
  error that names \<open>i\<close> and wraps the cause with the join of the close errors, each of
  which it holds.  Conversely, an error returned here comes from such a first failure.
\<close>

theorem newDialerInitializer_bootstrap_failure:
  fixes X :: "('u, 'r, 'h) extern" and opts :: Options
  defines "bs \<equiv> Bootstrap opts"
  assumes split: "netutil_SplitHostPort (Host u) = Inr (host, port)"
    and no_addrs: "ServerIPAddrs opts = []"
    and no_ip: "\<not> netip_ParseAddr_ok X host"
  shows
    "(\<forall>i cause bevs.
        i < length bs \<longrightarrow> bs ! i \<noteq> '''' \<longrightarrow>
        builds X opts tr (filter (\<lambda>b. b \<noteq> '''') (take i bs)) bevs \<longrightarrow>
        NewUpstreamResolver X (tr @ bevs) (bs ! i) opts = Inl cause \<longrightarrow>
        (\<exists>cevs.
            newDialerInitializer X u opts tr =
              (None, nopClose,
               Some (Joined (PreparingBootstrapResolver i cause #
                       (case errors_Join (concat (map close_err_of cevs)) of
                          None \<Rightarrow> [] | Some j \<Rightarrow> [j]))),
               tr @ bevs @ [EvNewUpstreamResolver (bs ! i) opts (Inl cause)] @ cevs)
          \<and> length cevs = length bevs
          \<and> (\<forall>k<length cevs.
                cevs ! k =
                  EvClose (concat (map built_of bevs) ! k)
                    (Close X
                       (tr @ bevs @ [EvNewUpstreamResolver (bs ! i) opts (Inl cause)] @ take k cevs)
                       (concat (map built_of bevs) ! k)))
          \<and> (\<forall>c. Some c \<in> set (concat (map close_err_of cevs)) \<longrightarrow>
                (\<exists>cs. errors_Join (concat (map close_err_of cevs)) = Some (Joined cs)
                      \<and> c \<in> set cs))))
     \<and> (\<forall>di closeBoot e tr'.
          newDialerInitializer X u opts tr = (di, closeBoot, Some e, tr') \<longrightarrow>
          (\<exists>i cause bevs.
              i < length bs \<and> bs ! i \<noteq> ''''
            \<and> builds X opts tr (filter (\<lambda>b. b \<noteq> '''') (take i bs)) bevs
            \<and> NewUpstreamResolver X (tr @ bevs) (bs ! i) opts = Inl cause))"
proof -
  have fwd: "\<forall>i cause bevs.
        i < length bs \<longrightarrow> bs ! i \<noteq> '''' \<longrightarrow>
        builds X opts tr (filter (\<lambda>b. b \<noteq> '''') (take i bs)) bevs \<longrightarrow>
        NewUpstreamResolver X (tr @ bevs) (bs ! i) opts = Inl cause \<longrightarrow>
        (\<exists>cevs.
            newDialerInitializer X u opts tr =
              (None, nopClose,
               Some (Joined (PreparingBootstrapResolver i cause #
                       (case errors_Join (concat (map close_err_of cevs)) of
                          None \<Rightarrow> [] | Some j \<Rightarrow> [j]))),
               tr @ bevs @ [EvNewUpstreamResolver (bs ! i) opts (Inl cause)] @ cevs)
          \<and> length cevs = length bevs
          \<and> (\<forall>k<length cevs.
                cevs ! k =
                  EvClose (concat (map built_of bevs) ! k)
                    (Close X
                       (tr @ bevs @ [EvNewUpstreamResolver (bs ! i) opts (Inl cause)] @ take k cevs)
                       (concat (map built_of bevs) ! k)))
          \<and> (\<forall>c. Some c \<in> set (concat (map close_err_of cevs)) \<longrightarrow>
                (\<exists>cs. errors_Join (concat (map close_err_of cevs)) = Some (Joined cs)
                      \<and> c \<in> set cs)))"
  proof (intro allI impI)
    fix i cause bevs
    assume i: "i < length bs" "bs ! i \<noteq> ''''"
      and b: "builds X opts tr (filter (\<lambda>b. b \<noteq> '''') (take i bs)) bevs"
      and f: "NewUpstreamResolver X (tr @ bevs) (bs ! i) opts = Inl cause"
    let ?fail = "EvNewUpstreamResolver (bs ! i) opts (Inl cause) :: ('u, 'r, 'h) event"
    let ?built = "concat (map built_of bevs)"
    let ?tr1 = "tr @ bevs @ [?fail]"
    from i have ne: "bs \<noteq> []" by auto
    from newResolvers_loop_first_failure [OF i b f, of 0 "[]" "[]"]
    have loop: "newResolvers_loop X opts 0 bs [] [] tr =
        ([], ?built, Some (PreparingBootstrapResolver i cause), ?tr1)"
      by simp
    then have nr: "newResolvers X opts tr =
        ([], closeBootsFunc ?built, Some (PreparingBootstrapResolver i cause), ?tr1)"
      using ne by (simp add: newResolvers_def bs_def)
    from closeBoots_loop_spec [of X ?built "[]" ?tr1] obtain cevs where
      c: "closeBoots_loop X ?built [] ?tr1 = ([] @ concat (map close_err_of cevs), ?tr1 @ cevs)"
         "length cevs = length ?built"
         "\<forall>k<length ?built. cevs ! k = EvClose (?built ! k) (Close X (?tr1 @ take k cevs) (?built ! k))"
      by blast
    from builds_built_length [OF b] have len: "length ?built = length bevs" by simp
    have 1: "newDialerInitializer X u opts tr =
              (None, nopClose,
               Some (Joined (PreparingBootstrapResolver i cause #
                       (case errors_Join (concat (map close_err_of cevs)) of
                          None \<Rightarrow> [] | Some j \<Rightarrow> [j]))),
               tr @ bevs @ [?fail] @ cevs)"
      using split no_addrs no_ip nr c(1)
      by (simp add: newDialerInitializer_def errors_Join_pair)
    have 2: "length cevs = length bevs" using c(2) len by simp
    have 3: "\<forall>k<length cevs.
                cevs ! k = EvClose (?built ! k) (Close X (tr @ bevs @ [?fail] @ take k cevs) (?built ! k))"
      using c(3) c(2) by simp
    have 4: "\<forall>c. Some c \<in> set (concat (map close_err_of cevs)) \<longrightarrow>
                (\<exists>cs. errors_Join (concat (map close_err_of cevs)) = Some (Joined cs)
                      \<and> c \<in> set cs)"
      using errors_Join_Some by blast
    from 1 2 3 4
    show "\<exists>cevs.
            newDialerInitializer X u opts tr =
              (None, nopClose,
               Some (Joined (PreparingBootstrapResolver i cause #
                       (case errors_Join (concat (map close_err_of cevs)) of
                          None \<Rightarrow> [] | Some j \<Rightarrow> [j]))),
               tr @ bevs @ [?fail] @ cevs)
          \<and> length cevs = length bevs
          \<and> (\<forall>k<length cevs.
                cevs ! k =
                  EvClose (?built ! k)
                    (Close X (tr @ bevs @ [?fail] @ take k cevs) (?built ! k)))
          \<and> (\<forall>c. Some c \<in> set (concat (map close_err_of cevs)) \<longrightarrow>
                (\<exists>cs. errors_Join (concat (map close_err_of cevs)) = Some (Joined cs)
                      \<and> c \<in> set cs))"
      by blast
  qed
  have bwd: "\<forall>di closeBoot e tr'.
          newDialerInitializer X u opts tr = (di, closeBoot, Some e, tr') \<longrightarrow>
          (\<exists>i cause bevs.
              i < length bs \<and> bs ! i \<noteq> ''''
            \<and> builds X opts tr (filter (\<lambda>b. b \<noteq> '''') (take i bs)) bevs
            \<and> NewUpstreamResolver X (tr @ bevs) (bs ! i) opts = Inl cause)"
  proof (intro allI impI)
    fix di closeBoot e tr'
    assume res: "newDialerInitializer X u opts tr = (di, closeBoot, Some e, tr')"
    obtain resolvers cb err tr1 where nr: "newResolvers X opts tr = (resolvers, cb, err, tr1)"
      by (cases "newResolvers X opts tr") auto
    from res split nr obtain e0 where err: "err = Some e0"
      by (auto simp: newDialerInitializer_def Let_def split: if_splits option.splits prod.splits)
    from nr err obtain cbs where
      "newResolvers_loop X opts 0 bs [] [] tr = (resolvers, cbs, Some e0, tr1)"
      by (auto simp: newResolvers_def bs_def Let_def split: if_splits prod.splits)
    from newResolvers_loop_error_builds [OF this]
    show "\<exists>i cause bevs.
              i < length bs \<and> bs ! i \<noteq> ''''
            \<and> builds X opts tr (filter (\<lambda>b. b \<noteq> '''') (take i bs)) bevs
            \<and> NewUpstreamResolver X (tr @ bevs) (bs ! i) opts = Inl cause" .
  qed
  from fwd bwd show ?thesis by blast
qed

text \<open>
  Four bootstrap entries, the third of which cannot be built; the resolver built for the
  first one fails to close.  The fourth entry is never asked for.
\<close>

theorem newDialerInitializer_bootstrap_failure_witness:
  "netutil_SplitHostPort (Host sample_url) = Inr (''dns.example'', 853)
   \<and> ServerIPAddrs failing_Options = []
   \<and> \<not> netip_ParseAddr_ok sample_extern ''dns.example''
   \<and> Bootstrap failing_Options = [''8.8.8.8:53'', '''', ''bad'', ''9.9.9.9:53'']
   \<and> builds sample_extern failing_Options []
       (filter (\<lambda>b. b \<noteq> '''') (take 2 (Bootstrap failing_Options)))
       [EvNewUpstreamResolver ''8.8.8.8:53'' failing_Options (Inr 0)]
   \<and> NewUpstreamResolver sample_extern
       ([] @ [EvNewUpstreamResolver ''8.8.8.8:53'' failing_Options (Inr 0)])
       (Bootstrap failing_Options ! 2) failing_Options = Inl (ErrExternal ''creating upstream'')
   \<and> newDialerInitializer sample_extern sample_url failing_Options [] =
     (None, nopClose,
      Some (Joined [PreparingBootstrapResolver 2 (ErrExternal ''creating upstream''),
                    Joined [ErrExternal ''closing'']]),
      [EvNewUpstreamResolver ''8.8.8.8:53'' failing_Options (Inr 0),
       EvNewUpstreamResolver ''bad'' failing_Options (Inl (ErrExternal ''creating upstream'')),
       EvClose 0 (Some (ErrExternal ''closing''))])"
proof -
  let ?bevs = "[EvNewUpstreamResolver ''8.8.8.8:53'' failing_Options (Inr 0)]
                 :: (string, nat, string list) event list"
  let ?fail = "EvNewUpstreamResolver (Bootstrap failing_Options ! 2) failing_Options
                 (Inl (ErrExternal ''creating upstream''))
                 :: (string, nat, string list) event"
  have b: "Bootstrap failing_Options = [''8.8.8.8:53'', '''', ''bad'', ''9.9.9.9:53'']"
    by (simp add: failing_Options_def zero_Options_def)
  have a: "ServerIPAddrs failing_Options = []"
    by (simp add: failing_Options_def zero_Options_def)
  have s: "netutil_SplitHostPort (Host sample_url) = Inr (''dns.example'', 853)"
    by (simp add: sample_url_def split_853)
  have p: "\<not> netip_ParseAddr_ok sample_extern ''dns.example''"
    by (simp add: sample_extern_def sample_ParseIP_def)
  have i: "2 < length (Bootstrap failing_Options)" "Bootstrap failing_Options ! 2 \<noteq> ''''"
    by (simp_all add: b)
  have bl: "builds sample_extern failing_Options []
     (filter (\<lambda>b. b \<noteq> '''') (take 2 (Bootstrap failing_Options))) ?bevs"
    by (simp add: b sample_NewUpstreamResolver numeral_2_eq_2)
  have f: "NewUpstreamResolver sample_extern ([] @ ?bevs)
       (Bootstrap failing_Options ! 2) failing_Options = Inl (ErrExternal ''creating upstream'')"
    by (simp add: b sample_NewUpstreamResolver)
  from newDialerInitializer_bootstrap_failure
         [OF s a p, of "[]", THEN conjunct1, rule_format, OF i(1) i(2) bl f]
  obtain cevs where
    r: "newDialerInitializer sample_extern sample_url failing_Options [] =
           (None, nopClose,
            Some (Joined (PreparingBootstrapResolver 2 (ErrExternal ''creating upstream'') #
                    (case errors_Join (concat (map close_err_of cevs)) of
                       None \<Rightarrow> [] | Some j \<Rightarrow> [j]))),
            [] @ ?bevs @ [?fail] @ cevs)"
    and len: "length cevs = length ?bevs"
    and nth: "\<forall>k<length cevs.
                cevs ! k =
                  EvClose (concat (map built_of ?bevs) ! k)
                    (Close sample_extern ([] @ ?bevs @ [?fail] @ take k cevs)
                       (concat (map built_of ?bevs) ! k))"
    by (elim exE conjE) (rule that; assumption)
  from len have l1: "length cevs = 1" by simp
  with nth have "cevs ! 0 =
                  EvClose (concat (map built_of ?bevs) ! 0)
                    (Close sample_extern ([] @ ?bevs @ [?fail] @ take 0 cevs)
                       (concat (map built_of ?bevs) ! 0))"
    by simp
  then have c0: "cevs ! 0 = EvClose 0 (Some (ErrExternal ''closing''))"
    by (simp add: sample_extern_def)
  from l1 have "cevs = [cevs ! 0]" by (rule list_of_length_1)
  also have "\<dots> = [EvClose 0 (Some (ErrExternal ''closing''))]"
    by (simp only: c0)
  finally have cs: "cevs = [EvClose 0 (Some (ErrExternal ''closing''))]" .
  have j: "errors_Join (concat (map close_err_of [EvClose (0::nat) (Some (ErrExternal ''closing''))
             :: (string, nat, string list) event])) = Some (Joined [ErrExternal ''closing''])"
    by (simp add: errors_Join_def)
  have 7: "newDialerInitializer sample_extern sample_url failing_Options [] =
     (None, nopClose,
      Some (Joined [PreparingBootstrapResolver 2 (ErrExternal ''creating upstream''),
                    Joined [ErrExternal ''closing'']]),
      [EvNewUpstreamResolver ''8.8.8.8:53'' failing_Options (Inr 0),
       EvNewUpstreamResolver ''bad'' failing_Options (Inl (ErrExternal ''creating upstream'')),
       EvClose 0 (Some (ErrExternal ''closing''))])"
    using r unfolding cs j by (simp add: b)
  show ?thesis
    apply (intro conjI)
          apply (rule s)
         apply (rule a)
        apply (rule p)
       apply (rule b)
      apply (rule bl)
     apply (rule f)
    apply (rule 7)
    done
qed

section \<open>Properties of the dialer initializer\<close>

text \<open>
  Claim C2, as the specification states it, fails for a URL whose port is out of range:
  the options carry an explicit server address, and \<^verbatim>\<open>newDialerInitializer\<close> returns
  an error and no initializer, because it splits host and port before it looks at the
  options.
\<close>

theorem explicit_addresses_bad_port_no_initializer:
  "ServerIPAddrs (zero_Options\<lparr>ServerIPAddrs := [[1, 1, 1, 1]]\<rparr>) \<noteq> []
   \<and> newDialerInitializer sample_extern
       \<lparr>Scheme = ''tls'', Host = ''dns.example:99999'', Path = '''', Rest = ''''\<rparr>
       (zero_Options\<lparr>ServerIPAddrs := [[1, 1, 1, 1]]\<rparr>) [] =
     (None, nopClose,
      Some (InvalidAddressOfHost ''dns.example:99999''
              (ParsingPort (NumError ''ParseUint'' ''99999'' ErrRange))),
      [])"
  by (simp add: newDialerInitializer_def split_bad_port)

lemma di_step_static:
  "di_step X (StaticInitializer handler) t s p =
     (s, if p = atLoad then Returned (Inr handler) else p)"
  by (cases s; cases p) simp_all

lemma run_static:
  "cell (run X (StaticInitializer handler) sched s) = cell s
   \<and> trace (run X (StaticInitializer handler) sched s) = trace s"
proof (induction sched arbitrary: s)
  case Nil
  show ?case by simp
next
  case (Cons t sched)
  have "cell (sys_step X (StaticInitializer handler) t s) = cell s
      \<and> trace (sys_step X (StaticInitializer handler) t s) = trace s"
    by (simp add: sys_step_def di_step_static)
  with Cons.IH [of "sys_step X (StaticInitializer handler) t s"] show ?case by simp
qed

lemma split_no_port:
  "netutil_SplitHostPort ''dns.example'' = Inl (AddrError missingPort ''dns.example'')"
  by (simp add: netutil_SplitHostPort_def split_defs)

text \<open>
  Claim C2, amended.  When \<^verbatim>\<open>netutil.SplitHostPort\<close> does not split the host of the
  URL, \<^verbatim>\<open>newDialerInitializer\<close> returns the invalid-address error and no initializer,
  and calls nothing outside, whatever the options hold.  When it splits the host into
  host and port, and the options carry an explicit server address or the host is a
  literal IP address, then \<^verbatim>\<open>newDialerInitializer\<close> makes the handler at once (from
  the explicit addresses joined with the port, or else from the host of the URL), calls
  nothing outside, and returns no error; every invocation of the initializer returns
  this handler and changes neither the cell nor the trace, alone or interleaved with
  others; the close function is \<^verbatim>\<open>nopClose\<close>, which does nothing.
\<close>

theorem newDialerInitializer_fast_path:
  fixes X :: "('u, 'r, 'h) extern" and port :: "16 word" and opts :: Options and u :: url
  defines "handler \<equiv> NewDialContext X (Timeout opts)
             (if ServerIPAddrs opts \<noteq> []
              then map (\<lambda>addr. JoinHostPort X (IP_String X addr) port) (ServerIPAddrs opts)
              else [Host u])"
  shows
    "(\<forall>err. netutil_SplitHostPort (Host u) = Inl err \<longrightarrow>
         newDialerInitializer X u opts tr =
           (None, nopClose, Some (InvalidAddressOfHost (Host u) err), tr))
     \<and> (netutil_SplitHostPort (Host u) = Inr (host, port) \<longrightarrow>
        ServerIPAddrs opts \<noteq> [] \<or> netip_ParseAddr_ok X host \<longrightarrow>
          newDialerInitializer X u opts tr = (Some (StaticInitializer handler), nopClose, None, tr)
          \<and> (\<forall>t s. di_call X (StaticInitializer handler) t s = (s, Returned (Inr handler)))
          \<and> (\<forall>sched s. cell (run X (StaticInitializer handler) sched s) = cell s
                 \<and> trace (run X (StaticInitializer handler) sched s) = trace s)
          \<and> (\<forall>tr2. call_closeFunc X nopClose tr2 = (None, tr2)))"
proof -
  have 0: "\<forall>err. netutil_SplitHostPort (Host u) = Inl err \<longrightarrow>
         newDialerInitializer X u opts tr =
           (None, nopClose, Some (InvalidAddressOfHost (Host u) err), tr)"
    by (simp add: newDialerInitializer_def)
  have 1: "netutil_SplitHostPort (Host u) = Inr (host, port) \<longrightarrow>
        ServerIPAddrs opts \<noteq> [] \<or> netip_ParseAddr_ok X host \<longrightarrow>
          newDialerInitializer X u opts tr = (Some (StaticInitializer handler), nopClose, None, tr)"
    by (auto simp: newDialerInitializer_def handler_def Let_def)
  have 2: "\<forall>t s. di_call X (StaticInitializer handler) t s = (s, Returned (Inr handler))"
    by (auto simp: di_call_def)
  have 3: "\<forall>sched s. cell (run X (StaticInitializer handler) sched s) = cell s
            \<and> trace (run X (StaticInitializer handler) sched s) = trace s"
    by (simp add: run_static)
  from 0 1 2 3 show ?thesis by simp
qed

text \<open>
  The sample upstream with two explicit addresses; an upstream whose host is a literal
  address; and, with an explicit address in the options, a host without a port and a
  host whose port is out of range.
\<close>

theorem newDialerInitializer_fast_path_witness:
  "newDialerInitializer sample_extern sample_url (sample_Options\<lparr>ServerIPAddrs := [[1, 1, 1, 1], [9, 9, 9, 9]]\<rparr>) [] =
     (Some (StaticInitializer [''1.1.1.1:853'', ''9.9.9.9:853'']), nopClose, None, [])
   \<and> di_call sample_extern (StaticInitializer [''1.1.1.1:853'', ''9.9.9.9:853'']) 0 (None, []) =
       ((None, []), Returned (Inr [''1.1.1.1:853'', ''9.9.9.9:853'']))
   \<and> newDialerInitializer sample_extern
        \<lparr>Scheme = ''tls'', Host = ''1.1.1.1:853'', Path = '''', Rest = ''''\<rparr> sample_Options [] =
     (Some (StaticInitializer [''1.1.1.1:853'']), nopClose, None, [])
   \<and> newDialerInitializer sample_extern
        \<lparr>Scheme = ''tls'', Host = ''dns.example'', Path = '''', Rest = ''''\<rparr>
        (sample_Options\<lparr>ServerIPAddrs := [[1, 1, 1, 1]]\<rparr>) [] =
     (None, nopClose,
      Some (InvalidAddressOfHost ''dns.example'' (AddrError missingPort ''dns.example'')), [])
   \<and> newDialerInitializer sample_extern
        \<lparr>Scheme = ''tls'', Host = ''dns.example:99999'', Path = '''', Rest = ''''\<rparr>
        (sample_Options\<lparr>ServerIPAddrs := [[1, 1, 1, 1]]\<rparr>) [] =
     (None, nopClose,
      Some (InvalidAddressOfHost ''dns.example:99999''
              (ParsingPort (NumError ''ParseUint'' ''99999'' ErrRange))), [])"
proof -
  let ?o = "sample_Options\<lparr>ServerIPAddrs := [[1, 1, 1, 1], [9, 9, 9, 9]]\<rparr>"
  let ?o1 = "sample_Options\<lparr>ServerIPAddrs := [[1, 1, 1, 1]]\<rparr>"
  let ?u = "\<lparr>Scheme = ''tls'', Host = ''1.1.1.1:853'', Path = '''', Rest = ''''\<rparr>"
  let ?un = "\<lparr>Scheme = ''tls'', Host = ''dns.example'', Path = '''', Rest = ''''\<rparr>"
  let ?ub = "\<lparr>Scheme = ''tls'', Host = ''dns.example:99999'', Path = '''', Rest = ''''\<rparr>"
  have s: "netutil_SplitHostPort (Host sample_url) = Inr (''dns.example'', 853)"
    by (simp add: sample_url_def split_853)
  have a: "ServerIPAddrs ?o \<noteq> [] \<or> netip_ParseAddr_ok sample_extern ''dns.example''"
    by simp
  have s2: "netutil_SplitHostPort (Host ?u) = Inr (''1.1.1.1'', 853)"
    by (simp add: netutil_SplitHostPort_def split_defs port_defs)
  have a2: "ServerIPAddrs sample_Options \<noteq> [] \<or> netip_ParseAddr_ok sample_extern ''1.1.1.1''"
    by (simp add: sample_extern_def sample_ParseIP_def)
  have sn: "netutil_SplitHostPort (Host ?un) = Inl (AddrError missingPort ''dns.example'')"
    by (simp add: split_no_port)
  have sb: "netutil_SplitHostPort (Host ?ub) =
      Inl (ParsingPort (NumError ''ParseUint'' ''99999'' ErrRange))"
    by (simp add: split_bad_port)
  have h: "NewDialContext sample_extern (Timeout ?o)
             (if ServerIPAddrs ?o \<noteq> []
              then map (\<lambda>addr. JoinHostPort sample_extern (IP_String sample_extern addr) 853) (ServerIPAddrs ?o)
              else [Host sample_url]) = [''1.1.1.1:853'', ''9.9.9.9:853'']"
    by (simp add: sample_extern_def sample_IP_String_def)
  have h2: "NewDialContext sample_extern (Timeout sample_Options)
             (if ServerIPAddrs sample_Options \<noteq> []
              then map (\<lambda>addr. JoinHostPort sample_extern (IP_String sample_extern addr) 853) (ServerIPAddrs sample_Options)
              else [Host ?u]) = [''1.1.1.1:853'']"
    by (simp add: sample_extern_def sample_Options_def zero_Options_def)
  from newDialerInitializer_fast_path
         [where X = sample_extern and u = sample_url and opts = ?o and tr = "[]"
            and host = "''dns.example''" and port = 853] s a
  have 1: "newDialerInitializer sample_extern sample_url ?o [] =
       (Some (StaticInitializer [''1.1.1.1:853'', ''9.9.9.9:853'']), nopClose, None, [])"
    and 2: "di_call sample_extern (StaticInitializer [''1.1.1.1:853'', ''9.9.9.9:853'']) 0 (None, []) =
       ((None, []), Returned (Inr [''1.1.1.1:853'', ''9.9.9.9:853'']))"
    unfolding h by simp_all
  from newDialerInitializer_fast_path
         [where X = sample_extern and u = ?u and opts = sample_Options and tr = "[]"
            and host = "''1.1.1.1''" and port = 853] s2 a2
  have 3: "newDialerInitializer sample_extern ?u sample_Options [] =
       (Some (StaticInitializer [''1.1.1.1:853'']), nopClose, None, [])"
    unfolding h2 by simp
  from newDialerInitializer_fast_path
         [where X = sample_extern and u = ?un and opts = ?o1 and tr = "[]"] sn
  have 4: "newDialerInitializer sample_extern ?un ?o1 [] =
     (None, nopClose,
      Some (InvalidAddressOfHost ''dns.example'' (AddrError missingPort ''dns.example'')), [])"
    by simp
  from newDialerInitializer_fast_path
         [where X = sample_extern and u = ?ub and opts = ?o1 and tr = "[]"] sb
  have 5: "newDialerInitializer sample_extern ?ub ?o1 [] =
     (None, nopClose,
      Some (InvalidAddressOfHost ''dns.example:99999''
              (ParsingPort (NumError ''ParseUint'' ''99999'' ErrRange))), [])"
    by simp
  from 1 2 3 4 5 show ?thesis by blast
qed

lemma sys_step_set:
  fixes X :: "('u, 'r, 'h) extern"
  assumes c: "cell s = Some h"
    and late: "\<forall>t \<in> T. t < length (places s) \<and> (places s ! t = atLoad \<or> places s ! t = Returned (Inr h))"
  shows "cell (sys_step X (LazyInitializer u opts resolvers) t s) = Some h
     \<and> length (places (sys_step X (LazyInitializer u opts resolvers) t s)) = length (places s)
     \<and> (\<forall>t' \<in> T. places (sys_step X (LazyInitializer u opts resolvers) t s) ! t' = atLoad
                 \<or> places (sys_step X (LazyInitializer u opts resolvers) t s) ! t' = Returned (Inr h))
     \<and> (\<forall>t'<length (places s). places s ! t' \<noteq> Panicked \<longrightarrow>
            places (sys_step X (LazyInitializer u opts resolvers) t s) ! t' \<noteq> Panicked)
     \<and> (\<exists>evs. trace (sys_step X (LazyInitializer u opts resolvers) t s) = trace s @ evs
            \<and> (\<forall>t' \<in> T. t' \<notin> set (concat (map resolved_by evs))))"
proof (cases "t < length (places s)")
  case False
  then have "sys_step X (LazyInitializer u opts resolvers) t s = s" by (simp add: sys_step_def)
  with c late show ?thesis by simp
next
  case True
  let ?di = "LazyInitializer u opts resolvers :: ('r, 'h) DialerInitializer"
  obtain c' tr' p' where st: "di_step X ?di t (cell s, trace s) (places s ! t) = ((c', tr'), p')"
    by (metis surj_pair)
  have s': "sys_step X ?di t s = \<lparr>cell = c', trace = tr', places = (places s)[t := p']\<rparr>"
    using True st by (simp add: sys_step_def)
  have facts: "c' = Some h \<and> (places s ! t \<noteq> Panicked \<longrightarrow> p' \<noteq> Panicked)
      \<and> (places s ! t = atLoad \<or> places s ! t = Returned (Inr h) \<longrightarrow> p' = Returned (Inr h) \<and> tr' = trace s)
      \<and> (\<exists>evs. tr' = trace s @ evs \<and> set (concat (map resolved_by evs)) \<subseteq> {t}
              \<and> (evs \<noteq> [] \<longrightarrow> places s ! t = atResolve))"
    using st c by (cases "places s ! t") (auto simp: Let_def split: sum.splits)
  have 1: "cell (sys_step X ?di t s) = Some h" using s' facts by simp
  have 2: "length (places (sys_step X ?di t s)) = length (places s)" using s' by simp
  have 3: "\<forall>t' \<in> T. places (sys_step X ?di t s) ! t' = atLoad
                 \<or> places (sys_step X ?di t s) ! t' = Returned (Inr h)"
  proof
    fix t' assume t': "t' \<in> T"
    with late have l: "t' < length (places s)" "places s ! t' = atLoad \<or> places s ! t' = Returned (Inr h)"
      by auto
    show "places (sys_step X ?di t s) ! t' = atLoad
                 \<or> places (sys_step X ?di t s) ! t' = Returned (Inr h)"
    proof (cases "t' = t")
      case True
      with l facts have "p' = Returned (Inr h)" by blast
      with True l(1) s' show ?thesis by simp
    next
      case False
      with s' l show ?thesis by simp
    qed
  qed
  have 4: "\<forall>t'<length (places s). places s ! t' \<noteq> Panicked \<longrightarrow>
            places (sys_step X ?di t s) ! t' \<noteq> Panicked"
  proof (intro allI impI)
    fix t' assume l: "t' < length (places s)" and np: "places s ! t' \<noteq> Panicked"
    show "places (sys_step X ?di t s) ! t' \<noteq> Panicked"
    proof (cases "t' = t")
      case True
      with np facts have "p' \<noteq> Panicked" by blast
      with True l s' show ?thesis by simp
    next
      case False
      with s' np show ?thesis by simp
    qed
  qed
  from facts obtain evs where evs: "tr' = trace s @ evs" "set (concat (map resolved_by evs)) \<subseteq> {t}"
      "evs \<noteq> [] \<longrightarrow> places s ! t = atResolve"
    by blast
  have "\<forall>t' \<in> T. t' \<notin> set (concat (map resolved_by evs))"
  proof
    fix t' assume t': "t' \<in> T"
    show "t' \<notin> set (concat (map resolved_by evs))"
    proof
      assume m: "t' \<in> set (concat (map resolved_by evs))"
      with evs(2) have "t' = t" by auto
      moreover from m have "evs \<noteq> []" by auto
      ultimately have "places s ! t' = atResolve" using evs(3) by simp
      with late t' show False by auto
    qed
  qed
  with evs(1) s' have 5: "\<exists>evs. trace (sys_step X ?di t s) = trace s @ evs
            \<and> (\<forall>t' \<in> T. t' \<notin> set (concat (map resolved_by evs)))"
    by auto
  from 1 2 3 4 5 show ?thesis by blast
qed

lemma run_set:
  fixes X :: "('u, 'r, 'h) extern"
  assumes "cell s = Some h"
    and "\<forall>t \<in> T. t < length (places s) \<and> (places s ! t = atLoad \<or> places s ! t = Returned (Inr h))"
  shows "cell (run X (LazyInitializer u opts resolvers) sched s) = Some h
     \<and> length (places (run X (LazyInitializer u opts resolvers) sched s)) = length (places s)
     \<and> (\<forall>t' \<in> T. places (run X (LazyInitializer u opts resolvers) sched s) ! t' = atLoad
                 \<or> places (run X (LazyInitializer u opts resolvers) sched s) ! t' = Returned (Inr h))
     \<and> (\<forall>t'<length (places s). places s ! t' \<noteq> Panicked \<longrightarrow>
            places (run X (LazyInitializer u opts resolvers) sched s) ! t' \<noteq> Panicked)
     \<and> (\<exists>evs. trace (run X (LazyInitializer u opts resolvers) sched s) = trace s @ evs
            \<and> (\<forall>t' \<in> T. t' \<notin> set (concat (map resolved_by evs))))"
  using assms
proof (induction sched arbitrary: s)
  case Nil
  then show ?case by simp
next
  case (Cons t sched)
  let ?di = "LazyInitializer u opts resolvers :: ('r, 'h) DialerInitializer"
  let ?s1 = "sys_step X ?di t s"
  from sys_step_set [OF Cons.prems, of X u opts resolvers t]
  have a: "cell ?s1 = Some h" "length (places ?s1) = length (places s)"
    and b: "\<forall>t' \<in> T. places ?s1 ! t' = atLoad \<or> places ?s1 ! t' = Returned (Inr h)"
    and c: "\<forall>t'<length (places s). places s ! t' \<noteq> Panicked \<longrightarrow> places ?s1 ! t' \<noteq> Panicked"
    and d: "\<exists>evs. trace ?s1 = trace s @ evs \<and> (\<forall>t' \<in> T. t' \<notin> set (concat (map resolved_by evs)))"
    by blast+
  have late1: "\<forall>t \<in> T. t < length (places ?s1) \<and> (places ?s1 ! t = atLoad \<or> places ?s1 ! t = Returned (Inr h))"
    using Cons.prems(2) a(2) b by simp
  from Cons.IH [OF a(1) late1]
  have e: "cell (run X ?di sched ?s1) = Some h"
      "length (places (run X ?di sched ?s1)) = length (places ?s1)"
    and f: "\<forall>t' \<in> T. places (run X ?di sched ?s1) ! t' = atLoad
                 \<or> places (run X ?di sched ?s1) ! t' = Returned (Inr h)"
    and g: "\<forall>t'<length (places ?s1). places ?s1 ! t' \<noteq> Panicked \<longrightarrow>
            places (run X ?di sched ?s1) ! t' \<noteq> Panicked"
    and i: "\<exists>evs. trace (run X ?di sched ?s1) = trace ?s1 @ evs
            \<and> (\<forall>t' \<in> T. t' \<notin> set (concat (map resolved_by evs)))"
    by blast+
  from d obtain evs1 where evs1: "trace ?s1 = trace s @ evs1"
      "\<forall>t' \<in> T. t' \<notin> set (concat (map resolved_by evs1))" by blast
  from i obtain evs2 where evs2: "trace (run X ?di sched ?s1) = trace ?s1 @ evs2"
      "\<forall>t' \<in> T. t' \<notin> set (concat (map resolved_by evs2))" by blast
  have tr: "trace (run X ?di sched ?s1) = trace s @ (evs1 @ evs2)
      \<and> (\<forall>t' \<in> T. t' \<notin> set (concat (map resolved_by (evs1 @ evs2))))"
    using evs1 evs2 by simp
  have 1: "cell (run X ?di (t # sched) s) = Some h" using e(1) by simp
  have 2: "length (places (run X ?di (t # sched) s)) = length (places s)" using e(2) a(2) by simp
  have 3: "\<forall>t' \<in> T. places (run X ?di (t # sched) s) ! t' = atLoad
                 \<or> places (run X ?di (t # sched) s) ! t' = Returned (Inr h)"
    using f by simp
  have 4: "\<forall>t'<length (places s). places s ! t' \<noteq> Panicked \<longrightarrow>
            places (run X ?di (t # sched) s) ! t' \<noteq> Panicked"
    using c g a(2) by simp
  have 5: "\<exists>evs. trace (run X ?di (t # sched) s) = trace s @ evs
            \<and> (\<forall>t' \<in> T. t' \<notin> set (concat (map resolved_by evs)))"
    using tr by (intro exI [of _ "evs1 @ evs2"]) simp
  from 1 2 3 4 5 show ?case by blast
qed

lemma di_call_set:
  "di_call X (LazyInitializer u opts resolvers) t (Some h, tr) = ((Some h, tr), Returned (Inr h))"
  by (simp add: di_call_def)

lemma di_call_unset:
  "di_call X (LazyInitializer u opts resolvers) t (None, tr) =
     (case ResolveDialContext X tr u (Timeout opts) resolvers (PreferIPv6 opts) of
        Inl e \<Rightarrow> ((None, tr @ [EvResolveDialContext t u resolvers (Inl e)]),
                  Returned (Inl (CreatingDialHandler e)))
      | Inr h \<Rightarrow> ((Some h, tr @ [EvResolveDialContext t u resolvers (Inr h)]),
                  Returned (Inr h)))"
  by (simp add: di_call_def Let_def split: sum.splits)

lemma di_step_cell_change:
  "di_step X di t (c, tr) p = ((c', tr'), p') \<Longrightarrow> c' \<noteq> c \<Longrightarrow>
     c = None \<and> (\<exists>h. p = atCompareAndSwap h \<and> c' = Some h)"
  by (cases di; cases p; cases c) (auto simp: Let_def split: sum.splits)

lemma sys_step_resolved:
  fixes X :: "('u, 'r, 'h) extern" and u :: url and opts :: Options and resolvers :: "'r Resolver list"
  defines "di \<equiv> LazyInitializer u opts resolvers"
  assumes inv: "\<forall>h. (cell s = Some h \<or> (\<exists>t<length (places s). places s ! t = atCompareAndSwap h)) \<longrightarrow>
                  (\<exists>t. EvResolveDialContext t u resolvers (Inr h) \<in> set (trace s))"
  shows "\<forall>h. (cell (sys_step X di t s) = Some h
             \<or> (\<exists>t'<length (places (sys_step X di t s)). places (sys_step X di t s) ! t' = atCompareAndSwap h)) \<longrightarrow>
                  (\<exists>t'. EvResolveDialContext t' u resolvers (Inr h) \<in> set (trace (sys_step X di t s)))"
proof (cases "t < length (places s)")
  case False
  then have "sys_step X di t s = s" by (simp add: sys_step_def)
  with inv show ?thesis by simp
next
  case True
  obtain c' tr' p' where st: "di_step X di t (cell s, trace s) (places s ! t) = ((c', tr'), p')"
    by (metis surj_pair)
  have s': "sys_step X di t s = \<lparr>cell = c', trace = tr', places = (places s)[t := p']\<rparr>"
    using True st by (simp add: sys_step_def)
  have mono: "set (trace s) \<subseteq> set tr'"
    using st unfolding di_def
    by (cases "places s ! t"; cases "cell s") (auto simp: Let_def split: sum.splits)
  have newcell: "\<forall>h. c' = Some h \<longrightarrow> cell s = Some h \<or> places s ! t = atCompareAndSwap h"
    using st unfolding di_def
    by (cases "places s ! t"; cases "cell s") (auto simp: Let_def split: sum.splits)
  have newplace: "\<forall>h. p' = atCompareAndSwap h \<longrightarrow>
      places s ! t = atCompareAndSwap h \<or> EvResolveDialContext t u resolvers (Inr h) \<in> set tr'"
    using st unfolding di_def
    by (cases "places s ! t"; cases "cell s") (auto simp: Let_def split: sum.splits)
  show ?thesis
  proof (intro allI impI)
    fix h
    assume "cell (sys_step X di t s) = Some h
             \<or> (\<exists>t'<length (places (sys_step X di t s)). places (sys_step X di t s) ! t' = atCompareAndSwap h)"
    then have "c' = Some h \<or> (\<exists>t'<length (places s). (places s)[t := p'] ! t' = atCompareAndSwap h)"
      using s' by simp
    then have "(\<exists>t'. EvResolveDialContext t' u resolvers (Inr h) \<in> set tr')"
    proof
      assume "c' = Some h"
      with newcell have "cell s = Some h \<or> places s ! t = atCompareAndSwap h" by blast
      with True inv have "\<exists>t'. EvResolveDialContext t' u resolvers (Inr h) \<in> set (trace s)" by blast
      with mono show ?thesis by blast
    next
      assume "\<exists>t'<length (places s). (places s)[t := p'] ! t' = atCompareAndSwap h"
      then obtain t' where t': "t' < length (places s)" "(places s)[t := p'] ! t' = atCompareAndSwap h"
        by blast
      show ?thesis
      proof (cases "t' = t")
        case True
        with t' have "p' = atCompareAndSwap h" by simp
        with newplace have "places s ! t = atCompareAndSwap h
            \<or> EvResolveDialContext t u resolvers (Inr h) \<in> set tr'" by blast
        then show ?thesis
        proof
          assume "places s ! t = atCompareAndSwap h"
          with \<open>t < length (places s)\<close> inv
          have "\<exists>t'. EvResolveDialContext t' u resolvers (Inr h) \<in> set (trace s)" by blast
          with mono show ?thesis by blast
        next
          assume "EvResolveDialContext t u resolvers (Inr h) \<in> set tr'"
          then show ?thesis by blast
        qed
      next
        case False
        with t' have "places s ! t' = atCompareAndSwap h" by simp
        with t'(1) inv have "\<exists>t'. EvResolveDialContext t' u resolvers (Inr h) \<in> set (trace s)" by blast
        with mono show ?thesis by blast
      qed
    qed
    then show "\<exists>t'. EvResolveDialContext t' u resolvers (Inr h) \<in> set (trace (sys_step X di t s))"
      using s' by simp
  qed
qed

lemma run_resolved:
  fixes X :: "('u, 'r, 'h) extern"
  assumes "\<forall>h. (cell s = Some h \<or> (\<exists>t<length (places s). places s ! t = atCompareAndSwap h)) \<longrightarrow>
                  (\<exists>t. EvResolveDialContext t u resolvers (Inr h) \<in> set (trace s))"
  shows "\<forall>h. (cell (run X (LazyInitializer u opts resolvers) sched s) = Some h
             \<or> (\<exists>t'<length (places (run X (LazyInitializer u opts resolvers) sched s)).
                   places (run X (LazyInitializer u opts resolvers) sched s) ! t' = atCompareAndSwap h)) \<longrightarrow>
                  (\<exists>t'. EvResolveDialContext t' u resolvers (Inr h)
                           \<in> set (trace (run X (LazyInitializer u opts resolvers) sched s)))"
  using assms
proof (induction sched arbitrary: s)
  case Nil
  then show ?case by simp
next
  case (Cons t sched)
  from sys_step_resolved [OF Cons.prems, of X opts t]
  have "\<forall>h. (cell (sys_step X (LazyInitializer u opts resolvers) t s) = Some h
             \<or> (\<exists>t'<length (places (sys_step X (LazyInitializer u opts resolvers) t s)).
                   places (sys_step X (LazyInitializer u opts resolvers) t s) ! t' = atCompareAndSwap h)) \<longrightarrow>
                  (\<exists>t'. EvResolveDialContext t' u resolvers (Inr h)
                          \<in> set (trace (sys_step X (LazyInitializer u opts resolvers) t s)))" .
  from Cons.IH [OF this] show ?case by simp
qed

lemma sample_lookup:
  "ResolveDialContext sample_extern tr u timeout resolvers prefer =
     (if concat (map resolved_by tr) = [] then Inl (ErrExternal ''lookup'')
      else Inr [''192.0.2.1:853''])"
  by (simp add: sample_extern_def)

lemma sample_interleaving:
  "run sample_extern sample_di [1, 0, 2, 1]
     \<lparr>cell = Some [''192.0.2.1:853''], trace = [], places = [atLoad, atResolve, atLoad]\<rparr> =
   \<lparr>cell = Some [''192.0.2.1:853''],
    trace = [EvResolveDialContext 1 sample_url [UpstreamResolver 0, SystemResolver, UpstreamResolver 1]
               (Inl (ErrExternal ''lookup''))],
    places = [Returned (Inr [''192.0.2.1:853'']),
              Returned (Inl (CreatingDialHandler (ErrExternal ''lookup''))),
              Returned (Inr [''192.0.2.1:853''])]\<rparr>"
  by (simp add: sample_di_def sys_step_def sample_lookup Let_def)

text \<open>
  Claim C1.  For the resolving initializer of a hostname-based upstream, once the cell
  holds a handler: whatever invocations run and however their atomic steps interleave,
  the cell holds that handler ever after; an invocation that had not begun when the cell
  was set is, at any later moment, still not begun or has returned that handler, and it
  has made no bootstrap lookup; no invocation dereferences nil.  Run alone, an
  invocation on a set cell returns the stored handler and leaves cell and trace as they
  were; an invocation on an unset cell whose lookup succeeds stores the handler and
  returns it.
\<close>

theorem dialHandler_set_once:
  fixes X :: "('u, 'r, 'h) extern" and u :: url and opts :: Options and resolvers :: "'r Resolver list"
  defines "di \<equiv> LazyInitializer u opts resolvers"
  assumes set: "cell s = Some h"
  shows "cell (run X di sched s) = Some h
     \<and> (\<forall>t<length (places s). places s ! t = atLoad \<longrightarrow>
           places (run X di sched s) ! t = atLoad \<or> places (run X di sched s) ! t = Returned (Inr h))
     \<and> (\<exists>evs. trace (run X di sched s) = trace s @ evs
           \<and> (\<forall>t<length (places s). places s ! t = atLoad \<longrightarrow> t \<notin> set (concat (map resolved_by evs))))
     \<and> (\<forall>t<length (places s). places s ! t \<noteq> Panicked \<longrightarrow> places (run X di sched s) ! t \<noteq> Panicked)
     \<and> (\<forall>t tr. di_call X di t (Some h, tr) = ((Some h, tr), Returned (Inr h)))
     \<and> (\<forall>t tr h'. ResolveDialContext X tr u (Timeout opts) resolvers (PreferIPv6 opts) = Inr h' \<longrightarrow>
           di_call X di t (None, tr) =
             ((Some h', tr @ [EvResolveDialContext t u resolvers (Inr h')]), Returned (Inr h')))"
proof -
  let ?T = "{t. t < length (places s) \<and> places s ! t = atLoad}"
  have late: "\<forall>t \<in> ?T. t < length (places s) \<and> (places s ! t = atLoad \<or> places s ! t = Returned (Inr h))"
    by simp
  from run_set [OF set late, of X u opts resolvers sched]
  have 1: "cell (run X di sched s) = Some h"
    and 2: "\<forall>t' \<in> ?T. places (run X di sched s) ! t' = atLoad
                 \<or> places (run X di sched s) ! t' = Returned (Inr h)"
    and 3: "\<forall>t'<length (places s). places s ! t' \<noteq> Panicked \<longrightarrow>
            places (run X di sched s) ! t' \<noteq> Panicked"
    and 4: "\<exists>evs. trace (run X di sched s) = trace s @ evs
            \<and> (\<forall>t' \<in> ?T. t' \<notin> set (concat (map resolved_by evs)))"
    unfolding di_def by blast+
  have 5: "\<forall>t tr. di_call X di t (Some h, tr) = ((Some h, tr), Returned (Inr h))"
    by (simp add: di_def di_call_set)
  have 6: "\<forall>t tr h'. ResolveDialContext X tr u (Timeout opts) resolvers (PreferIPv6 opts) = Inr h' \<longrightarrow>
           di_call X di t (None, tr) =
             ((Some h', tr @ [EvResolveDialContext t u resolvers (Inr h')]), Returned (Inr h'))"
    by (simp add: di_def di_call_unset)
  from 2 have l2: "\<forall>t<length (places s). places s ! t = atLoad \<longrightarrow>
           places (run X di sched s) ! t = atLoad \<or> places (run X di sched s) ! t = Returned (Inr h)"
    by simp
  from 4 obtain evs where "trace (run X di sched s) = trace s @ evs"
      "\<forall>t' \<in> ?T. t' \<notin> set (concat (map resolved_by evs))"
    by blast
  then have "trace (run X di sched s) = trace s @ evs
           \<and> (\<forall>t<length (places s). places s ! t = atLoad \<longrightarrow> t \<notin> set (concat (map resolved_by evs)))"
    by blast
  then have l4: "\<exists>evs. trace (run X di sched s) = trace s @ evs
           \<and> (\<forall>t<length (places s). places s ! t = atLoad \<longrightarrow> t \<notin> set (concat (map resolved_by evs)))"
    by (rule exI)
  from 1 l2 l4 3 5 6 show ?thesis by blast
qed

text \<open>
  Three invocations on a set cell, one of them already past its load: that one looks up
  (and fails), the two others return the stored handler.  An invocation on an unset
  cell, after a lookup has been tried, stores the handler it resolves.
\<close>

theorem dialHandler_set_once_witness:
  "run sample_extern sample_di [1, 0, 2, 1]
     \<lparr>cell = Some [''192.0.2.1:853''], trace = [], places = [atLoad, atResolve, atLoad]\<rparr> =
   \<lparr>cell = Some [''192.0.2.1:853''],
    trace = [EvResolveDialContext 1 sample_url [UpstreamResolver 0, SystemResolver, UpstreamResolver 1]
               (Inl (ErrExternal ''lookup''))],
    places = [Returned (Inr [''192.0.2.1:853'']),
              Returned (Inl (CreatingDialHandler (ErrExternal ''lookup''))),
              Returned (Inr [''192.0.2.1:853''])]\<rparr>
   \<and> cell (run sample_extern sample_di [1, 0, 2, 1]
        \<lparr>cell = Some [''192.0.2.1:853''], trace = [], places = [atLoad, atResolve, atLoad]\<rparr>) =
      Some [''192.0.2.1:853'']
   \<and> di_call sample_extern sample_di 3 (Some [''192.0.2.1:853''], []) =
        ((Some [''192.0.2.1:853''], []), Returned (Inr [''192.0.2.1:853'']))
   \<and> di_call sample_extern sample_di 4
        (None,
         [EvResolveDialContext 1 sample_url [UpstreamResolver 0, SystemResolver, UpstreamResolver 1]
            (Inl (ErrExternal ''lookup''))]) =
        ((Some [''192.0.2.1:853''],
          [EvResolveDialContext 1 sample_url [UpstreamResolver 0, SystemResolver, UpstreamResolver 1]
             (Inl (ErrExternal ''lookup'')),
           EvResolveDialContext 4 sample_url [UpstreamResolver 0, SystemResolver, UpstreamResolver 1]
             (Inr [''192.0.2.1:853''])]),
         Returned (Inr [''192.0.2.1:853'']))"
proof -
  let ?rs = "[UpstreamResolver 0, SystemResolver, UpstreamResolver 1] :: nat Resolver list"
  let ?ev = "EvResolveDialContext 1 sample_url ?rs (Inl (ErrExternal ''lookup''))
               :: (string, nat, string list) event"
  have g: "ResolveDialContext sample_extern [?ev] sample_url (Timeout sample_Options) ?rs
             (PreferIPv6 sample_Options) = Inr [''192.0.2.1:853'']"
    by (simp add: sample_lookup)
  let ?s = "\<lparr>cell = Some [''192.0.2.1:853''], trace = [], places = [atLoad, atResolve, atLoad]\<rparr>
              :: (string, nat, string list) sys"
  have c: "cell ?s = Some [''192.0.2.1:853'']" by simp
  from dialHandler_set_once [OF c, of sample_extern sample_url sample_Options
         "[UpstreamResolver 0, SystemResolver, UpstreamResolver 1]" "[1, 0, 2, 1]"]
  have "cell (run sample_extern sample_di [1, 0, 2, 1] ?s) = Some [''192.0.2.1:853'']"
    and "di_call sample_extern sample_di 3 (Some [''192.0.2.1:853''], []) =
        ((Some [''192.0.2.1:853''], []), Returned (Inr [''192.0.2.1:853'']))"
    and "di_call sample_extern sample_di 4 (None, [?ev]) =
        ((Some [''192.0.2.1:853''],
          [?ev, EvResolveDialContext 4 sample_url ?rs (Inr [''192.0.2.1:853''])]),
         Returned (Inr [''192.0.2.1:853'']))"
    unfolding sample_di_def using g by auto
  with sample_interleaving show ?thesis by blast
qed

text \<open>
  Claim C4.  When the bootstrap lookup of an invocation fails, the invocation returns
  the error \<open>creating dial handler\<close> that wraps the cause, and the step leaves the cell
  as it is; run alone on an unset cell, the invocation leaves the cell unset.  Every
  invocation that runs alone on an unset cell makes a lookup of its own, so the next one
  tries again, and when its lookup succeeds it stores the handler and returns it.  The
  cell only ever changes from unset to a handler, at a compare-and-swap; and in every
  run from an unset cell, a handler found in the cell is the result of a lookup that
  succeeded.
\<close>

theorem resolution_failure_not_memoized:
  fixes X :: "('u, 'r, 'h) extern" and u :: url and opts :: Options and resolvers :: "'r Resolver list"
  defines "di \<equiv> LazyInitializer u opts resolvers"
  shows "(\<forall>t c tr e. ResolveDialContext X tr u (Timeout opts) resolvers (PreferIPv6 opts) = Inl e \<longrightarrow>
            di_step X di t (c, tr) atResolve =
              ((c, tr @ [EvResolveDialContext t u resolvers (Inl e)]),
               Returned (Inl (CreatingDialHandler e))))
     \<and> (\<forall>t tr e. ResolveDialContext X tr u (Timeout opts) resolvers (PreferIPv6 opts) = Inl e \<longrightarrow>
            di_call X di t (None, tr) =
              ((None, tr @ [EvResolveDialContext t u resolvers (Inl e)]),
               Returned (Inl (CreatingDialHandler e))))
     \<and> (\<forall>t tr. snd (fst (di_call X di t (None, tr))) =
            tr @ [EvResolveDialContext t u resolvers
                    (ResolveDialContext X tr u (Timeout opts) resolvers (PreferIPv6 opts))])
     \<and> (\<forall>t tr h. ResolveDialContext X tr u (Timeout opts) resolvers (PreferIPv6 opts) = Inr h \<longrightarrow>
            di_call X di t (None, tr) =
              ((Some h, tr @ [EvResolveDialContext t u resolvers (Inr h)]), Returned (Inr h)))
     \<and> (\<forall>t c tr p c' tr' p'. di_step X di t (c, tr) p = ((c', tr'), p') \<longrightarrow> c' \<noteq> c \<longrightarrow>
            c = None \<and> (\<exists>h. p = atCompareAndSwap h \<and> c' = Some h))
     \<and> (\<forall>s sched h. cell s = None \<longrightarrow> (\<forall>p \<in> set (places s). p = atLoad) \<longrightarrow>
            cell (run X di sched s) = Some h \<longrightarrow>
            (\<exists>t. EvResolveDialContext t u resolvers (Inr h) \<in> set (trace (run X di sched s))))"
proof -
  have 1: "\<forall>t c tr e. ResolveDialContext X tr u (Timeout opts) resolvers (PreferIPv6 opts) = Inl e \<longrightarrow>
            di_step X di t (c, tr) atResolve =
              ((c, tr @ [EvResolveDialContext t u resolvers (Inl e)]),
               Returned (Inl (CreatingDialHandler e)))"
    by (simp add: di_def Let_def)
  have 2: "\<forall>t tr e. ResolveDialContext X tr u (Timeout opts) resolvers (PreferIPv6 opts) = Inl e \<longrightarrow>
            di_call X di t (None, tr) =
              ((None, tr @ [EvResolveDialContext t u resolvers (Inl e)]),
               Returned (Inl (CreatingDialHandler e)))"
    by (simp add: di_def di_call_unset)
  have 3: "\<forall>t tr. snd (fst (di_call X di t (None, tr))) =
            tr @ [EvResolveDialContext t u resolvers
                    (ResolveDialContext X tr u (Timeout opts) resolvers (PreferIPv6 opts))]"
    by (simp add: di_def di_call_unset split: sum.splits)
  have 4: "\<forall>t tr h. ResolveDialContext X tr u (Timeout opts) resolvers (PreferIPv6 opts) = Inr h \<longrightarrow>
            di_call X di t (None, tr) =
              ((Some h, tr @ [EvResolveDialContext t u resolvers (Inr h)]), Returned (Inr h))"
    by (simp add: di_def di_call_unset)
  have 5: "\<forall>t c tr p c' tr' p'. di_step X di t (c, tr) p = ((c', tr'), p') \<longrightarrow> c' \<noteq> c \<longrightarrow>
            c = None \<and> (\<exists>h. p = atCompareAndSwap h \<and> c' = Some h)"
    using di_step_cell_change by blast
  have 6: "\<forall>s sched h. cell s = None \<longrightarrow> (\<forall>p \<in> set (places s). p = atLoad) \<longrightarrow>
            cell (run X di sched s) = Some h \<longrightarrow>
            (\<exists>t. EvResolveDialContext t u resolvers (Inr h) \<in> set (trace (run X di sched s)))"
  proof (intro allI impI)
    fix s :: "('u, 'r, 'h) sys" and sched h
    assume c: "cell s = None" and p: "\<forall>p \<in> set (places s). p = atLoad"
      and r: "cell (run X di sched s) = Some h"
    have "\<forall>h. (cell s = Some h \<or> (\<exists>t<length (places s). places s ! t = atCompareAndSwap h)) \<longrightarrow>
                  (\<exists>t. EvResolveDialContext t u resolvers (Inr h) \<in> set (trace s))"
      using c p by (auto simp: all_set_conv_all_nth)
    from run_resolved [OF this, of X opts sched] r
    show "\<exists>t. EvResolveDialContext t u resolvers (Inr h) \<in> set (trace (run X di sched s))"
      unfolding di_def by blast
  qed
  from 1 2 3 4 5 6 show ?thesis by blast
qed

text \<open>
  In the sample environment the first lookup fails and the second succeeds: the first
  invocation returns the error and stores nothing, the second stores and returns the
  handler.  The same with two invocations that interleave: the handler in the cell at
  the end is the one the successful lookup returned.
\<close>

theorem resolution_failure_not_memoized_witness:
  "di_call sample_extern sample_di 0 (None, []) =
     ((None,
       [EvResolveDialContext 0 sample_url [UpstreamResolver 0, SystemResolver, UpstreamResolver 1]
          (Inl (ErrExternal ''lookup''))]),
      Returned (Inl (CreatingDialHandler (ErrExternal ''lookup''))))
   \<and> di_call sample_extern sample_di 1
       (None,
        [EvResolveDialContext 0 sample_url [UpstreamResolver 0, SystemResolver, UpstreamResolver 1]
          (Inl (ErrExternal ''lookup''))]) =
     ((Some [''192.0.2.1:853''],
       [EvResolveDialContext 0 sample_url [UpstreamResolver 0, SystemResolver, UpstreamResolver 1]
          (Inl (ErrExternal ''lookup'')),
        EvResolveDialContext 1 sample_url [UpstreamResolver 0, SystemResolver, UpstreamResolver 1]
          (Inr [''192.0.2.1:853''])]),
      Returned (Inr [''192.0.2.1:853'']))
   \<and> run sample_extern sample_di [0, 0, 1, 1, 1, 0]
       \<lparr>cell = None, trace = [], places = [atLoad, atLoad]\<rparr> =
     \<lparr>cell = Some [''192.0.2.1:853''],
      trace =
        [EvResolveDialContext 0 sample_url [UpstreamResolver 0, SystemResolver, UpstreamResolver 1]
           (Inl (ErrExternal ''lookup'')),
         EvResolveDialContext 1 sample_url [UpstreamResolver 0, SystemResolver, UpstreamResolver 1]
           (Inr [''192.0.2.1:853''])],
      places = [Returned (Inl (CreatingDialHandler (ErrExternal ''lookup''))),
                Returned (Inr [''192.0.2.1:853''])]\<rparr>
   \<and> (\<exists>t. EvResolveDialContext t sample_url [UpstreamResolver 0, SystemResolver, UpstreamResolver 1]
              (Inr [''192.0.2.1:853''])
            \<in> set (trace (run sample_extern sample_di [0, 0, 1, 1, 1, 0]
                              \<lparr>cell = None, trace = [], places = [atLoad, atLoad]\<rparr>)))"
proof -
  let ?rs = "[UpstreamResolver 0, SystemResolver, UpstreamResolver 1] :: nat Resolver list"
  let ?ev = "EvResolveDialContext 0 sample_url ?rs (Inl (ErrExternal ''lookup''))
               :: (string, nat, string list) event"
  let ?s = "\<lparr>cell = None, trace = [], places = [atLoad, atLoad]\<rparr> :: (string, nat, string list) sys"
  have r: "run sample_extern sample_di [0, 0, 1, 1, 1, 0] ?s =
     \<lparr>cell = Some [''192.0.2.1:853''],
      trace = [?ev, EvResolveDialContext 1 sample_url ?rs (Inr [''192.0.2.1:853''])],
      places = [Returned (Inl (CreatingDialHandler (ErrExternal ''lookup''))),
                Returned (Inr [''192.0.2.1:853''])]\<rparr>"
    by (simp add: sample_di_def sys_step_def sample_lookup Let_def)
  have i: "cell ?s = None" "\<forall>p \<in> set (places ?s). p = atLoad"
      "cell (run sample_extern sample_di [0, 0, 1, 1, 1, 0] ?s) = Some [''192.0.2.1:853'']"
    using r by simp_all
  have f: "ResolveDialContext sample_extern [] sample_url (Timeout sample_Options) ?rs
             (PreferIPv6 sample_Options) = Inl (ErrExternal ''lookup'')"
    by (simp add: sample_lookup)
  have g: "ResolveDialContext sample_extern [?ev] sample_url (Timeout sample_Options) ?rs
             (PreferIPv6 sample_Options) = Inr [''192.0.2.1:853'']"
    by (simp add: sample_lookup)
  note inst = resolution_failure_not_memoized [of sample_extern sample_url sample_Options ?rs]
  from inst f have a: "di_call sample_extern sample_di 0 (None, []) =
          ((None, [?ev]), Returned (Inl (CreatingDialHandler (ErrExternal ''lookup''))))"
    unfolding sample_di_def by simp
  from inst g have b: "di_call sample_extern sample_di 1 (None, [?ev]) =
          ((Some [''192.0.2.1:853''],
            [?ev, EvResolveDialContext 1 sample_url ?rs (Inr [''192.0.2.1:853''])]),
           Returned (Inr [''192.0.2.1:853'']))"
    unfolding sample_di_def by simp
  from inst have "\<forall>s sched h. cell s = None \<longrightarrow> (\<forall>p \<in> set (places s). p = atLoad) \<longrightarrow>
            cell (run sample_extern sample_di sched s) = Some h \<longrightarrow>
            (\<exists>t. EvResolveDialContext t sample_url ?rs (Inr h)
                   \<in> set (trace (run sample_extern sample_di sched s)))"
    unfolding sample_di_def by blast
  with i have c: "\<exists>t. EvResolveDialContext t sample_url ?rs (Inr [''192.0.2.1:853''])
            \<in> set (trace (run sample_extern sample_di [0, 0, 1, 1, 1, 0] ?s))"
    by blast
  from a b r c show ?thesis by blast
qed

end

